theory Spec2Isabelle
  imports Main "HOL-Library.Word"
begin

section \<open>Strings and numbers of the host language\<close>

text \<open>
  A TypeScript string is a sequence of 16-bit code units; \<open>length\<close> counts code units.
  String literals of the source are written \<open>js ''...''\<close>.
\<close>

type_synonym jsstring = "16 word list"

definition js :: "string \<Rightarrow> jsstring" where
  "js s = map of_char s"

definition isDigit :: "16 word \<Rightarrow> bool" where
  \<comment> \<open>the class \<open>\d\<close> of a regular expression without the unicode flag\<close>
  "isDigit c \<longleftrightarrow> 0x30 \<le> c \<and> c \<le> 0x39"

definition isUpper :: "16 word \<Rightarrow> bool" where
  "isUpper c \<longleftrightarrow> 0x41 \<le> c \<and> c \<le> 0x5A"

definition isLower :: "16 word \<Rightarrow> bool" where
  "isLower c \<longleftrightarrow> 0x61 \<le> c \<and> c \<le> 0x7A"

definition isLetter :: "16 word \<Rightarrow> bool" where
  \<comment> \<open>the class \<open>[A-Z]\<close> under the flag \<open>i\<close>: a code unit whose canonical form lies in A..Z\<close>
  "isLetter c \<longleftrightarrow> isUpper c \<or> isLower c"

definition canonicalize :: "16 word \<Rightarrow> 16 word" where
  \<comment> \<open>Case folding of a pattern without the unicode flag: the upper-case form, except that a
      code unit from 128 on is never folded onto one below 128. Only its comparison with the
      folding of an ASCII pattern character is used, and there it agrees with this function.\<close>
  "canonicalize c = (if isLower c then c - 0x20 else c)"

definition toUpperCase :: "jsstring \<Rightarrow> jsstring" where
  \<comment> \<open>\<open>String.prototype.toUpperCase\<close> on the ASCII range; the receiver in the source is
      the capture of \<open>[A-Z]\d?\<close>, which holds ASCII letters and digits only.\<close>
  "toUpperCase s = map (\<lambda>c. if isLower c then c - 0x20 else c) s"

definition isWhiteSpace :: "16 word \<Rightarrow> bool" where
  \<comment> \<open>white space and line terminators: what \<open>trim\<close> strips and \<open>\s\<close> matches\<close>
  "isWhiteSpace c \<longleftrightarrow>
     c \<in> {0x09, 0x0A, 0x0B, 0x0C, 0x0D, 0x20, 0xA0, 0x1680, 0x2028, 0x2029, 0x202F, 0x205F,
          0x3000, 0xFEFF} \<or> (0x2000 \<le> c \<and> c \<le> 0x200A)"

definition trimStart :: "jsstring \<Rightarrow> jsstring" where
  "trimStart s = dropWhile isWhiteSpace s"

definition trimEnd :: "jsstring \<Rightarrow> jsstring" where
  "trimEnd s = rev (dropWhile isWhiteSpace (rev s))"

definition trim :: "jsstring \<Rightarrow> jsstring" where
  "trim s = trimEnd (trimStart s)"

text \<open>
  A number is an IEEE double. The numbers of this program are the contest id, which
  \<open>parseInt\<close> reads from a run of decimal digits, and the \<open>contestId\<close> and \<open>rating\<close> of the
  API's records, which the API documents as integers: the model holds the integer-valued
  numbers and the positive infinity that \<open>parseInt\<close> yields on a run of digits too long
  for a double.
\<close>

datatype number = Num int | Infinity

text \<open>
  \<open>Num n\<close> stands for a double, so \<open>n\<close> is an integer that a double holds: every integer
  up to \<open>2^53\<close> in absolute value and, beyond, the multiples of a power of two that
  \<open>toDouble\<close> yields.
\<close>

fun bitlen :: "nat \<Rightarrow> nat" where
  "bitlen n = (if n = 0 then 0 else Suc (bitlen (n div 2)))"

declare bitlen.simps [simp del]

definition toDouble :: "nat \<Rightarrow> number" where
  \<comment> \<open>the double nearest to a natural number, a tie going to the even significand of 53 bits\<close>
  "toDouble n =
     (if n < 2 ^ 53 then Num (int n)
      else let e = bitlen n - 53;
               q = n div 2 ^ e;
               r = n mod 2 ^ e;
               h = 2 ^ (e - 1);
               m = (if h < r \<or> (r = h \<and> odd q) then q + 1 else q)
           in if 2 ^ 1024 \<le> m * 2 ^ e then Infinity else Num (int (m * 2 ^ e)))"

definition digitValue :: "16 word \<Rightarrow> nat" where
  "digitValue c = unat (c - 0x30)"

definition decimalValue :: "jsstring \<Rightarrow> nat" where
  "decimalValue ds = foldl (\<lambda>a c. 10 * a + digitValue c) 0 ds"

definition parseInt :: "jsstring \<Rightarrow> number" where
  \<comment> \<open>\<open>parseInt\<close> on a non-empty run of decimal digits, the only argument it is given here
      (the capture of \<open>\d+\<close>): the mathematical value of the digits, as a double\<close>
  "parseInt ds = toDouble (decimalValue ds)"

text \<open>
  \<open>Number::toString\<close>, which a template literal applies to a number. Of the digit strings
  \<open>s\<close> whose value \<open>s * 10^j\<close> reads back as the same double it takes the shortest; of
  two such strings of the same length the nearer value wins, and the even one on a tie.
  Where that value is below \<open>10^21\<close> it is written out, the digits of \<open>s\<close> followed by
  \<open>j\<close> zeros; from \<open>10^21\<close> on it is written in exponent notation. Up to \<open>2^53\<close> the
  value written is the number itself; beyond, it need not be: \<open>2^60\<close> is written
  \<open>1152921504606847000\<close>.
\<close>

function decimalDigits :: "nat \<Rightarrow> jsstring" where
  "decimalDigits n =
     (if n < 10 then [0x30 + of_nat n] else decimalDigits (n div 10) @ [0x30 + of_nat (n mod 10)])"
  by pat_completeness auto
termination
  by (relation "measure id") auto

declare decimalDigits.simps [simp del]

definition shortestAt :: "nat \<Rightarrow> nat \<Rightarrow> nat option" where
  \<comment> \<open>the value nearest to \<open>v\<close> among the multiples of \<open>u\<close> next to it that read back as \<open>v\<close>\<close>
  "shortestAt v u =
     (let lo = (v div u) * u;
          hi = lo + u;
          okLo = (toDouble lo = Num (int v));
          okHi = (toDouble hi = Num (int v))
      in if okLo \<and> okHi
         then (if v - lo < hi - v then Some lo
               else if hi - v < v - lo then Some hi
               else if even (v div u) then Some lo else Some hi)
         else if okLo then Some lo
         else if okHi then Some hi
         else None)"

fun shortestFrom :: "nat \<Rightarrow> nat \<Rightarrow> nat" where
  \<comment> \<open>\<open>shortestFrom v j\<close> tries the units \<open>10^j\<close>, \<open>10^(j-1)\<close>, ..., \<open>1\<close> in turn\<close>
  "shortestFrom v 0 = v"
| "shortestFrom v (Suc j) =
     (case shortestAt v (10 ^ Suc j) of Some c \<Rightarrow> c | None \<Rightarrow> shortestFrom v j)"

definition shortestValue :: "nat \<Rightarrow> nat" where
  \<comment> \<open>the value \<open>s * 10^j\<close> of the shortest digit string that reads back as \<open>v\<close>\<close>
  "shortestValue v = shortestFrom v (length (decimalDigits v) - 1)"

definition exponentForm :: "nat \<Rightarrow> jsstring" where
  \<comment> \<open>a value \<open>s * 10^j\<close> in exponent notation: the digits of \<open>s\<close>, a point after the first
      of them when there are more, and the exponent\<close>
  "exponentForm c =
     (let ds = decimalDigits c;
          sig = rev (dropWhile (\<lambda>d. d = 0x30) (rev ds))
      in (case sig of
            [] \<Rightarrow> []
          | d # rest \<Rightarrow> d # (if rest = [] then [] else 0x2E # rest))
         @ js ''e+'' @ decimalDigits (length ds - 1))"

definition naturalToString :: "nat \<Rightarrow> jsstring" where
  \<comment> \<open>A natural number is read as the double nearest to it, as \<open>JSON.parse\<close> reads a
      literal; a natural number that a double holds is that double.\<close>
  "naturalToString v =
     (case toDouble v of
        Infinity \<Rightarrow> js ''Infinity''
      | Num d \<Rightarrow>
          (let c = shortestValue (nat d)
           in if c < 10 ^ 21 then decimalDigits c else exponentForm c))"

fun numberToString :: "number \<Rightarrow> jsstring" where
  "numberToString Infinity = js ''Infinity''"
| "numberToString (Num n) =
     (if n < 0 then 0x2D # naturalToString (nat (- n)) else naturalToString (nat n))"

definition truthyNumber :: "number \<Rightarrow> bool" where
  \<comment> \<open>a number in a condition: false exactly for zero (and for NaN, which is not modelled)\<close>
  "truthyNumber x \<longleftrightarrow> x \<noteq> Num 0"

section \<open>Recognising a problem URL\<close>

text \<open>
  The two patterns of \<open>extractProblemData\<close>,
  \<^verbatim>\<open>/\/problemset\/problem\/(\d+)\/([A-Z]\d?)/i\<close> and
  \<^verbatim>\<open>/\/contest\/(\d+)\/problem\/([A-Z]\d?)/i\<close>,
  have one form: a literal, a run of digits, a literal, a letter and an optional digit.
  Neither pattern is anchored, so \<open>String.prototype.match\<close> tries every start position
  from the left and returns the first match.
\<close>

fun matchLiteral :: "jsstring \<Rightarrow> jsstring \<Rightarrow> jsstring option" where
  \<comment> \<open>the literal, case-insensitively, at the head of the input; the rest of the input\<close>
  "matchLiteral [] s = Some s"
| "matchLiteral (p # ps) [] = None"
| "matchLiteral (p # ps) (c # cs) =
     (if canonicalize c = canonicalize p then matchLiteral ps cs else None)"

definition matchIndex :: "jsstring \<Rightarrow> jsstring option" where
  \<comment> \<open>\<open>([A-Z]\d?)\<close> at the head of the input: the optional digit is greedy, and nothing
      follows it in the pattern, so it is taken whenever it is there\<close>
  "matchIndex u =
     (case u of
        [] \<Rightarrow> None
      | l # v \<Rightarrow>
          if isLetter l
          then Some (l # (case v of [] \<Rightarrow> [] | d # _ \<Rightarrow> if isDigit d then [d] else []))
          else None)"

definition matchHere :: "jsstring \<Rightarrow> jsstring \<Rightarrow> jsstring \<Rightarrow> (jsstring \<times> jsstring) option" where
  \<comment> \<open>One attempt at a start position; the result is the two captures. \<open>\d+\<close> is greedy
      and takes the whole run of digits; giving a digit back cannot help, since the
      literal that follows starts with a slash.\<close>
  "matchHere lit1 lit2 s =
     (case matchLiteral lit1 s of
        None \<Rightarrow> None
      | Some t \<Rightarrow>
          let ds = takeWhile isDigit t in
          if ds = [] then None
          else (case matchLiteral lit2 (dropWhile isDigit t) of
                  None \<Rightarrow> None
                | Some u \<Rightarrow> (case matchIndex u of None \<Rightarrow> None | Some ix \<Rightarrow> Some (ds, ix))))"

fun regexMatch :: "(jsstring \<Rightarrow> 'a option) \<Rightarrow> jsstring \<Rightarrow> 'a option" where
  \<comment> \<open>the first start position, from the left, at which the attempt succeeds\<close>
  "regexMatch m [] = m []"
| "regexMatch m (c # cs) = (case m (c # cs) of Some r \<Rightarrow> Some r | None \<Rightarrow> regexMatch m cs)"

definition problemsetPattern :: "jsstring \<Rightarrow> (jsstring \<times> jsstring) option" where
  "problemsetPattern = matchHere (js ''/problemset/problem/'') (js ''/'')"

definition contestPattern :: "jsstring \<Rightarrow> (jsstring \<times> jsstring) option" where
  "contestPattern = matchHere (js ''/contest/'') (js ''/problem/'')"

definition urlMatch :: "jsstring \<Rightarrow> (jsstring \<times> jsstring) option" where
  \<comment> \<open>\<open>url.match(first) || url.match(second)\<close>\<close>
  "urlMatch url =
     (case regexMatch problemsetPattern url of
        Some r \<Rightarrow> Some r
      | None \<Rightarrow> regexMatch contestPattern url)"

record problem_reference =
  contestId :: number
  problemIndex :: jsstring

definition parseUrl :: "jsstring \<Rightarrow> problem_reference option" where
  \<comment> \<open>lines 137 to 145 of \<open>extractProblemData\<close>; \<open>None\<close> is the thrown
      \<open>Invalid Codeforces problem URL format\<close>\<close>
  "parseUrl url =
     (case urlMatch url of
        None \<Rightarrow> None
      | Some (ds, ix) \<Rightarrow> Some \<lparr>contestId = parseInt ds, problemIndex = toUpperCase ix\<rparr>)"

section \<open>The data model\<close>

text \<open>
  The interface \<open>TestCase\<close>; its fields carry a prefix, \<open>output\<close> being a keyword of the
  theory language.
\<close>

record test_case =
  tc_input :: jsstring
  tc_output :: jsstring
  tc_explanation :: "jsstring option"

record problem_data =
  title :: jsstring
  timeLimit :: jsstring
  memoryLimit :: jsstring
  description :: jsstring
  inputFormat :: jsstring
  outputFormat :: jsstring
  constraints :: "jsstring list"
  sampleTests :: "test_case list"
  source :: jsstring
  difficulty :: "jsstring option"

text \<open>The interface \<open>CodeforcesApiProblem\<close>; its optional \<open>rating\<close> is an option.\<close>

record api_problem =
  api_contestId :: number
  api_index :: jsstring
  api_name :: jsstring
  api_type :: jsstring
  api_rating :: "number option"
  api_tags :: "jsstring list"

section \<open>The rendered document\<close>

text \<open>
  The callback of \<open>page.evaluate\<close> reads the document through \<open>querySelector\<close> and
  \<open>querySelectorAll\<close> only. Of an element it reads the text content, whether its class list
  holds \<open>section-title\<close>, and whether it has a descendant of class \<open>time-limit\<close> or
  \<open>memory-limit\<close>. A document is the answer to every selector: the matching elements in
  document order.
\<close>

record element =
  textContent :: "jsstring option"
  isSectionTitle :: bool
  hasTimeLimit :: bool
  hasMemoryLimit :: bool

type_synonym document = "jsstring \<Rightarrow> element list"

definition querySelectorAll :: "document \<Rightarrow> jsstring \<Rightarrow> element list" where
  "querySelectorAll doc sel = doc sel"

definition querySelector :: "document \<Rightarrow> jsstring \<Rightarrow> element option" where
  "querySelector doc sel = (case doc sel of [] \<Rightarrow> None | e # _ \<Rightarrow> Some e)"

subsection \<open>Regular expressions of the extraction\<close>

text \<open>
  The patterns of the extraction are sequences of single characters and of greedy runs of a
  character class, where no run is followed by a character of its own class: greedy
  matching never has to give a character back, and one pass from the left decides a match.
\<close>

datatype item =
  One "16 word \<Rightarrow> bool"
| Star "16 word \<Rightarrow> bool"
| Plus "16 word \<Rightarrow> bool"
| Opt "16 word \<Rightarrow> bool"

fun matchItems :: "item list \<Rightarrow> jsstring \<Rightarrow> jsstring option" where
  \<comment> \<open>the pattern at the head of the input; the rest of the input\<close>
  "matchItems [] s = Some s"
| "matchItems (One P # its) s =
     (case s of [] \<Rightarrow> None | c # cs \<Rightarrow> if P c then matchItems its cs else None)"
| "matchItems (Star P # its) s = matchItems its (dropWhile P s)"
| "matchItems (Plus P # its) s =
     (if takeWhile P s = [] then None else matchItems its (dropWhile P s))"
| "matchItems (Opt P # its) s =
     (case s of [] \<Rightarrow> matchItems its [] | c # cs \<Rightarrow> if P c then matchItems its cs else matchItems its s)"

definition literal :: "jsstring \<Rightarrow> item list" where
  \<comment> \<open>a literal under the flag \<open>i\<close>\<close>
  "literal lit = map (\<lambda>p. One (\<lambda>c. canonicalize c = canonicalize p)) lit"

fun replaceFirst :: "item list \<Rightarrow> jsstring \<Rightarrow> jsstring" where
  \<comment> \<open>\<open>s.replace(pattern, '')\<close> for a pattern without the flag \<open>g\<close>: the first match from
      the left is cut out\<close>
  "replaceFirst p [] = (case matchItems p [] of Some r \<Rightarrow> r | None \<Rightarrow> [])"
| "replaceFirst p (c # cs) =
     (case matchItems p (c # cs) of Some r \<Rightarrow> r | None \<Rightarrow> c # replaceFirst p cs)"

definition replaceAtStart :: "item list \<Rightarrow> jsstring \<Rightarrow> jsstring" where
  \<comment> \<open>the same for a pattern that starts with \<open>^\<close>\<close>
  "replaceAtStart p s = (case matchItems p s of Some r \<Rightarrow> r | None \<Rightarrow> s)"

function replaceRuns :: "(16 word \<Rightarrow> bool) \<Rightarrow> jsstring \<Rightarrow> jsstring" where
  \<comment> \<open>\<open>s.replace(/C+/g, ' ')\<close> for a character class \<open>C\<close>\<close>
  "replaceRuns P [] = []"
| "replaceRuns P (c # cs) =
     (if P c then 0x20 # replaceRuns P (dropWhile P cs) else c # replaceRuns P cs)"
  by pat_completeness auto
termination
  by (relation "measure (\<lambda>(P, s). length s)") (auto simp: length_dropWhile_le less_Suc_eq_le)

function matchAll :: "item list \<Rightarrow> jsstring \<Rightarrow> jsstring list" where
  \<comment> \<open>\<open>s.match(pattern)\<close> for a pattern with the flag \<open>g\<close>: the matches from the left, each
      search starting where the last match ended (one further after an empty match); the
      empty list stands for \<open>null\<close>\<close>
  "matchAll p [] = (case matchItems p [] of Some r \<Rightarrow> [[]] | None \<Rightarrow> [])"
| "matchAll p (c # cs) =
     (case matchItems p (c # cs) of
        None \<Rightarrow> matchAll p cs
      | Some r \<Rightarrow>
          if length r \<le> length cs
          then take (Suc (length cs) - length r) (c # cs) # matchAll p r
          else [] # matchAll p cs)"
  by pat_completeness auto
termination
  by (relation "measure (\<lambda>(p, s). length s)") auto

definition isWordChar :: "16 word \<Rightarrow> bool" where
  \<comment> \<open>the class \<open>\w\<close>\<close>
  "isWordChar c \<longleftrightarrow> isUpper c \<or> isLower c \<or> isDigit c \<or> c = 0x5F"

definition isRelation :: "16 word \<Rightarrow> bool" where
  \<comment> \<open>the bracketed class of the two constraint patterns, as the source file holds it: the
      code units U+201A, U+00E2, U+00A7 and the signs \<open><\<close> and \<open>=\<close>\<close>
  "isRelation c \<longleftrightarrow> c \<in> {0x201A, 0xE2, 0xA7, 0x3C, 0x3D}"

definition boundedPattern :: "item list" where
  \<comment> \<open>\<^verbatim>\<open>/\d+\s*[..]\s*\w+\s*[..]\s*\d+/g\<close>\<close>
  "boundedPattern =
     [Plus isDigit, Star isWhiteSpace, One isRelation, Star isWhiteSpace, Plus isWordChar,
      Star isWhiteSpace, One isRelation, Star isWhiteSpace, Plus isDigit]"

definition powerPattern :: "item list" where
  \<comment> \<open>\<^verbatim>\<open>/1\s*[..]\s*\w+\s*[..]\s*10\^?\d+/g\<close>\<close>
  "powerPattern =
     [One (\<lambda>c. c = 0x31), Star isWhiteSpace, One isRelation, Star isWhiteSpace,
      Plus isWordChar, Star isWhiteSpace, One isRelation, Star isWhiteSpace,
      One (\<lambda>c. c = 0x31), One (\<lambda>c. c = 0x30), Opt (\<lambda>c. c = 0x5E), Plus isDigit]"

definition indexPrefix :: "item list" where
  \<comment> \<open>\<^verbatim>\<open>/^[A-Z]\d*\.\s*/\<close>, without the flag \<open>i\<close>\<close>
  "indexPrefix = [One isUpper, Star isDigit, One (\<lambda>c. c = 0x2E), Star isWhiteSpace]"

subsection \<open>The callback of \<open>page.evaluate\<close>\<close>

definition cleanText :: "jsstring \<Rightarrow> jsstring" where
  "cleanText text = trim (replaceRuns (\<lambda>c. c = 0x0A) (replaceRuns isWhiteSpace text))"

fun getTextBySelectors :: "document \<Rightarrow> jsstring list \<Rightarrow> jsstring" where
  "getTextBySelectors doc [] = []"
| "getTextBySelectors doc (selector # selectors) =
     (case querySelector doc selector of
        None \<Rightarrow> getTextBySelectors doc selectors
      | Some el \<Rightarrow>
          (case textContent el of
             None \<Rightarrow> getTextBySelectors doc selectors
           | Some t \<Rightarrow>
               if t \<noteq> [] \<and> trim t \<noteq> [] then cleanText t
               else getTextBySelectors doc selectors))"

definition extractTitle :: "document \<Rightarrow> jsstring" where
  "extractTitle doc =
     replaceAtStart indexPrefix
       (getTextBySelectors doc
          [js ''.problem-statement .title'', js ''.problemindexholder .title'',
           js ''.header .title'', js ''h1'', js ''h2''])"

definition extractTimeLimit :: "document \<Rightarrow> jsstring" where
  \<open>extractTimeLimit doc =
     trim (replaceFirst (literal (js ''time limit''))
       (replaceFirst (literal (js ''time limit per test''))
          (getTextBySelectors doc [js ''.time-limit'', js ''[class*="time-limit"]''])))\<close>

definition extractMemoryLimit :: "document \<Rightarrow> jsstring" where
  \<open>extractMemoryLimit doc =
     trim (replaceFirst (literal (js ''memory limit''))
       (replaceFirst (literal (js ''memory limit per test''))
          (getTextBySelectors doc [js ''.memory-limit'', js ''[class*="memory-limit"]''])))\<close>

definition descriptionSelectors :: "jsstring list" where
  "descriptionSelectors =
     [js ''.problem-statement > div:not(.input-specification):not(.output-specification):not(.sample-tests):not(.note)'',
      js ''.problem-statement p'',
      js ''.problemindexholder > div'']"

definition isBodyText :: "element \<Rightarrow> bool" where
  \<comment> \<open>the condition of the inner loop of the description\<close>
  "isBodyText el \<longleftrightarrow>
     (case textContent el of
        None \<Rightarrow> False
      | Some t \<Rightarrow>
          t \<noteq> [] \<and> \<not> isSectionTitle el \<and> \<not> hasTimeLimit el \<and> \<not> hasMemoryLimit el
          \<and> 20 < length (trim t))"

fun appendBlocks :: "jsstring \<Rightarrow> element list \<Rightarrow> jsstring" where
  \<comment> \<open>the inner loop: the text gathered so far, and the elements still to visit\<close>
  "appendBlocks descr [] = descr"
| "appendBlocks descr (el # els) =
     (if isBodyText el
      then (let descr' =
                  descr @ cleanText (case textContent el of Some t \<Rightarrow> t | None \<Rightarrow> []) @ js '' ''
            in if 200 < length descr' then descr' else appendBlocks descr' els)
      else appendBlocks descr els)"

fun extractDescription :: "document \<Rightarrow> jsstring \<Rightarrow> jsstring list \<Rightarrow> jsstring" where
  \<comment> \<open>the outer loop over the selectors\<close>
  "extractDescription doc descr [] = descr"
| "extractDescription doc descr (selector # selectors) =
     (let descr' = appendBlocks descr (querySelectorAll doc selector)
      in if trim descr' \<noteq> [] then descr'
         else extractDescription doc descr' selectors)"

definition inputSpecSelectors :: "jsstring list" where
  \<open>inputSpecSelectors =
     [js ''.input-specification'', js ''.input-specification p'', js ''[class*="input-spec"]'']\<close>

definition outputSpecSelectors :: "jsstring list" where
  \<open>outputSpecSelectors =
     [js ''.output-specification'', js ''.output-specification p'', js ''[class*="output-spec"]'']\<close>

definition extractInputFormat :: "document \<Rightarrow> jsstring" where
  "extractInputFormat doc =
     trim (replaceFirst (literal (js ''input'')) (getTextBySelectors doc inputSpecSelectors))"

definition extractOutputFormat :: "document \<Rightarrow> jsstring" where
  "extractOutputFormat doc =
     trim (replaceFirst (literal (js ''output'')) (getTextBySelectors doc outputSpecSelectors))"

definition inputSelectors :: "jsstring list" where
  "inputSelectors = [js ''.input pre'', js ''.sample-input pre'', js ''.input'', js ''.sample-input'']"

definition outputSelectors :: "jsstring list" where
  "outputSelectors = [js ''.output pre'', js ''.sample-output pre'', js ''.output'', js ''.sample-output'']"

definition blockText :: "element \<Rightarrow> jsstring" where
  \<comment> \<open>\<open>el.textContent?.trim() || ''\<close>\<close>
  "blockText el = (case textContent el of None \<Rightarrow> [] | Some t \<Rightarrow> trim t)"

fun pairBlocks :: "element list \<Rightarrow> element list \<Rightarrow> test_case list" where
  \<comment> \<open>the loop over \<open>i\<close> below \<open>Math.min(inputs.length, outputs.length)\<close>: what it pushes\<close>
  "pairBlocks (i # inputs) (out # outputs) =
     (let inp = blockText i; outp = blockText out
      in (if inp \<noteq> [] \<and> outp \<noteq> [] \<and> length inp < 200 \<and> length outp < 200
          then [\<lparr>tc_input = inp, tc_output = outp, tc_explanation = None\<rparr>]
          else [])
         @ pairBlocks inputs outputs)"
| "pairBlocks _ _ = []"

fun outputLoop :: "document \<Rightarrow> test_case list \<Rightarrow> element list \<Rightarrow> jsstring list \<Rightarrow> test_case list" where
  \<comment> \<open>the loop over the output selectors, for the inputs of one input selector\<close>
  "outputLoop doc tests inputs [] = tests"
| "outputLoop doc tests inputs (outputSel # sels) =
     (let outputs = querySelectorAll doc outputSel
      in if 0 < length outputs
         then (let tests' = tests @ pairBlocks inputs outputs
               in if 0 < length tests' then tests' else outputLoop doc tests' inputs sels)
         else outputLoop doc tests inputs sels)"

fun inputLoop :: "document \<Rightarrow> test_case list \<Rightarrow> jsstring list \<Rightarrow> test_case list" where
  \<comment> \<open>the loop over the input selectors\<close>
  "inputLoop doc tests [] = tests"
| "inputLoop doc tests (inputSel # sels) =
     (let inputs = querySelectorAll doc inputSel
      in if 0 < length inputs
         then (let tests' = outputLoop doc tests inputs outputSelectors
               in if 0 < length tests' then tests' else inputLoop doc tests' sels)
         else inputLoop doc tests sels)"

definition extractSampleTests :: "document \<Rightarrow> test_case list" where
  "extractSampleTests doc = inputLoop doc [] inputSelectors"

definition extractConstraints :: "document \<Rightarrow> jsstring list" where
  \<open>extractConstraints doc =
     (let noteText = getTextBySelectors doc [js ''.note'', js ''.notes'', js ''[class*="constraint"]'']
      in if noteText \<noteq> [] then matchAll boundedPattern noteText @ matchAll powerPattern noteText
         else [])\<close>

definition orElse :: "jsstring \<Rightarrow> jsstring \<Rightarrow> jsstring" where
  \<comment> \<open>\<open>a || b\<close> on strings: the empty string is the only false one\<close>
  "orElse a b = (if a \<noteq> [] then a else b)"

definition extractFromPage :: "document \<Rightarrow> problem_data" where
  \<comment> \<open>the record that the callback returns\<close>
  "extractFromPage doc =
     \<lparr>title = orElse (extractTitle doc) (js ''Problem Title''),
      timeLimit = orElse (extractTimeLimit doc) (js ''1 second''),
      memoryLimit = orElse (extractMemoryLimit doc) (js ''256 megabytes''),
      description = orElse (trim (extractDescription doc [] descriptionSelectors)) (js ''Problem description''),
      inputFormat = orElse (extractInputFormat doc) (js ''See problem statement''),
      outputFormat = orElse (extractOutputFormat doc) (js ''See problem statement''),
      constraints = extractConstraints doc,
      sampleTests = extractSampleTests doc,
      source = js ''Codeforces'',
      difficulty = None\<rparr>"

section \<open>The two sources and the world around them\<close>

text \<open>
  What the network and the browser answer is not the program's choice: the environment
  fixes the answer to each request to the API and the behaviour of each rendering session
  that is launched, in the order of the requests and launches.
\<close>

datatype api_response =
  FetchRejects
| JsonRejects
| Json jsstring "api_problem list option"

text \<open>
  \<open>Json status problems\<close> is a parsed body: \<open>data.status\<close> and \<open>data.result.problems\<close>,
  which is \<open>None\<close> when the body has no such list and reading it raises a \<open>TypeError\<close>.
\<close>

record session =
  launchFails :: bool
  newPageFails :: bool
  setRequestInterceptionFails :: bool
  setViewportFails :: bool
  setUserAgentFails :: bool
  gotoFails :: bool
  waitForFunctionFails :: bool
  rendered :: "document option"
  closeFails :: bool

text \<open>
  \<open>gotoFails\<close> covers a navigation error and the time-out of 20 seconds; \<open>rendered\<close> is the
  document that \<open>page.evaluate\<close> runs the callback on, or \<open>None\<close> when \<open>page.evaluate\<close>
  rejects.
\<close>

record environment =
  responses :: "nat \<Rightarrow> api_response"
  sessions :: "nat \<Rightarrow> session"

datatype event =
  ApiRequest
| Launch nat
| Goto nat jsstring
| Close nat

record world =
  trace :: "event list"
  requests :: nat
  launches :: nat
  openBrowsers :: "nat list"

definition initialWorld :: world where
  "initialWorld = \<lparr>trace = [], requests = 0, launches = 0, openBrowsers = []\<rparr>"

datatype error =
  InvalidUrlFormat
| ApiFetchFailed
| LaunchFailed
| ScrapeFailed
| CloseFailed

text \<open>
  The errors are the \<open>Error\<close> objects of the source by their messages:
  \<open>Invalid Codeforces problem URL format\<close>, \<open>Failed to fetch from Codeforces API: ...\<close>
  and \<open>Failed to scrape problem data: ...\<close>; \<open>LaunchFailed\<close> and \<open>CloseFailed\<close> are the
  rejections of \<open>puppeteer.launch\<close> and \<open>browser.close\<close>, which no handler wraps.
\<close>

definition fetchFromCodeforcesAPI ::
  "environment \<Rightarrow> number \<Rightarrow> jsstring \<Rightarrow> world \<Rightarrow> (error + api_problem) \<times> world" where
  \<comment> \<open>every exception of the body is caught and thrown again as the one error\<close>
  "fetchFromCodeforcesAPI env cid pix w =
     (let w' = w\<lparr>trace := trace w @ [ApiRequest], requests := Suc (requests w)\<rparr>
      in (case responses env (requests w) of
            FetchRejects \<Rightarrow> Inl ApiFetchFailed
          | JsonRejects \<Rightarrow> Inl ApiFetchFailed
          | Json status problems \<Rightarrow>
              if status \<noteq> js ''OK'' then Inl ApiFetchFailed
              else (case problems of
                      None \<Rightarrow> Inl ApiFetchFailed
                    | Some ps \<Rightarrow>
                        (case find (\<lambda>p. api_contestId p = cid \<and> api_index p = pix) ps of
                           None \<Rightarrow> Inl ApiFetchFailed
                         | Some problem \<Rightarrow> Inr problem)),
          w'))"

definition evaluatePage :: "session \<Rightarrow> unit + problem_data" where
  "evaluatePage s = (case rendered s of None \<Rightarrow> Inl () | Some doc \<Rightarrow> Inr (extractFromPage doc))"

definition renderPage :: "session \<Rightarrow> jsstring \<Rightarrow> nat \<Rightarrow> world \<Rightarrow> (unit + problem_data) \<times> world" where
  \<comment> \<open>The \<open>try\<close> block of \<open>scrapeWithOptimizedPuppeteer\<close>; \<open>Inl ()\<close> is an exception on its
      way to the \<open>catch\<close> clause. The inner handler swallows a failure of
      \<open>waitForFunction\<close>, so both of its outcomes go on to \<open>page.evaluate\<close>.\<close>
  "renderPage s url k w =
     (if newPageFails s then (Inl (), w)
      else if setRequestInterceptionFails s then (Inl (), w)
      else if setViewportFails s then (Inl (), w)
      else if setUserAgentFails s then (Inl (), w)
      else (let w' = w\<lparr>trace := trace w @ [Goto k url]\<rparr>
            in if gotoFails s then (Inl (), w')
               else if waitForFunctionFails s then (evaluatePage s, w')
               else (evaluatePage s, w')))"

definition closeBrowser :: "nat \<Rightarrow> world \<Rightarrow> world" where
  \<comment> \<open>the call of \<open>browser.close\<close>: the session counts as released from the call on;
      whether the promise of the call rejects shows in the outcome of the scrape only\<close>
  "closeBrowser k w = w\<lparr>trace := trace w @ [Close k], openBrowsers := removeAll k (openBrowsers w)\<rparr>"

definition scrapeWithOptimizedPuppeteer ::
  "environment \<Rightarrow> jsstring \<Rightarrow> world \<Rightarrow> (error + problem_data) \<times> world" where
  \<comment> \<open>\<open>puppeteer.launch\<close> stands before the \<open>try\<close>; the \<open>catch\<close> clause wraps whatever the
      block threw; the \<open>finally\<close> clause closes the browser, and a rejection of
      \<open>browser.close\<close> replaces the outcome\<close>
  "scrapeWithOptimizedPuppeteer env url w =
     (let k = launches w;
          s = sessions env k;
          w1 = w\<lparr>trace := trace w @ [Launch k], launches := Suc k\<rparr>
      in if launchFails s then (Inl LaunchFailed, w1)
         else (let w2 = w1\<lparr>openBrowsers := k # openBrowsers w1\<rparr>;
                   (r, w3) = renderPage s url k w2;
                   w4 = closeBrowser k w3
               in (if closeFails s then Inl CloseFailed
                   else (case r of Inl _ \<Rightarrow> Inl ScrapeFailed | Inr problemData \<Rightarrow> Inr problemData),
                   w4)))"

definition combine :: "number \<Rightarrow> api_problem \<Rightarrow> problem_data \<Rightarrow> problem_data" where
  \<comment> \<open>the object literal that the \<open>try\<close> block of \<open>extractProblemData\<close> returns\<close>
  "combine cid apiData detailedData =
     \<lparr>title = orElse (api_name apiData) (title detailedData),
      timeLimit = timeLimit detailedData,
      memoryLimit = memoryLimit detailedData,
      description = description detailedData,
      inputFormat = inputFormat detailedData,
      outputFormat = outputFormat detailedData,
      constraints = constraints detailedData,
      sampleTests = sampleTests detailedData,
      source = js ''Contest '' @ numberToString cid,
      difficulty =
        (case api_rating apiData of
           None \<Rightarrow> difficulty detailedData
         | Some rating \<Rightarrow>
             if truthyNumber rating then Some (js ''*'' @ numberToString rating)
             else difficulty detailedData)\<rparr>"

definition extractProblemData ::
  "environment \<Rightarrow> jsstring \<Rightarrow> world \<Rightarrow> (error + problem_data) \<times> world" where
  \<comment> \<open>The \<open>try\<close> block holds both awaits, so its \<open>catch\<close> clause runs when either of them
      throws; the clause scrapes and lets an exception of that scrape pass.\<close>
  "extractProblemData env url w =
     (case parseUrl url of
        None \<Rightarrow> (Inl InvalidUrlFormat, w)
      | Some ref \<Rightarrow>
          (case fetchFromCodeforcesAPI env (contestId ref) (problemIndex ref) w of
             (Inl apiError, w1) \<Rightarrow> scrapeWithOptimizedPuppeteer env url w1
           | (Inr apiData, w1) \<Rightarrow>
               (case scrapeWithOptimizedPuppeteer env url w1 of
                  (Inl apiError, w2) \<Rightarrow> scrapeWithOptimizedPuppeteer env url w2
                | (Inr detailedData, w2) \<Rightarrow> (Inr (combine (contestId ref) apiData detailedData), w2))))"

section \<open>Sample inputs\<close>

definition emptyPage :: document where
  "emptyPage = (\<lambda>sel. [])"

definition quietSession :: session where
  "quietSession =
     \<lparr>launchFails = False, newPageFails = False, setRequestInterceptionFails = False,
      setViewportFails = False, setUserAgentFails = False, gotoFails = False,
      waitForFunctionFails = False, rendered = Some emptyPage, closeFails = False\<rparr>"

definition watermelon :: api_problem where
  "watermelon =
     \<lparr>api_contestId = Num 4, api_index = js ''A'', api_name = js ''Watermelon'',
      api_type = js ''PROGRAMMING'', api_rating = Some (Num 800), api_tags = []\<rparr>"

definition watermelonUrl :: jsstring where
  "watermelonUrl = js ''https://codeforces.com/contest/4/problem/A''"

definition offlineApi :: environment where
  "offlineApi = \<lparr>responses = (\<lambda>n. FetchRejects), sessions = (\<lambda>k. quietSession)\<rparr>"

definition onlineApi :: environment where
  "onlineApi =
     \<lparr>responses = (\<lambda>n. Json (js ''OK'') (Some [watermelon])), sessions = (\<lambda>k. quietSession)\<rparr>"

definition timedOutSession :: session where
  \<comment> \<open>a session whose navigation runs into the time-out\<close>
  "timedOutSession = quietSession\<lparr>gotoFails := True\<rparr>"

definition flakyBrowser :: environment where
  \<comment> \<open>the API answers; the first session times out on navigation, the later ones do not\<close>
  "flakyBrowser =
     \<lparr>responses = (\<lambda>n. Json (js ''OK'') (Some [watermelon])),
      sessions = (\<lambda>k. if k = 0 then timedOutSession else quietSession)\<rparr>"

definition zeroRated :: api_problem where
  "zeroRated = watermelon\<lparr>api_rating := Some (Num 0)\<rparr>"

definition zeroRatedApi :: environment where
  "zeroRatedApi =
     \<lparr>responses = (\<lambda>n. Json (js ''OK'') (Some [zeroRated])), sessions = (\<lambda>k. quietSession)\<rparr>"

section \<open>The accepted shapes, as the specification words them\<close>

text \<open>
  These definitions follow the specification, not the code: a shape is a position in the
  text and a number of digits, with no search and no greedy run. The literals are compared
  in any letter case, as the flag \<open>i\<close> of the two patterns has it.
\<close>

definition ciEqual :: "jsstring \<Rightarrow> jsstring \<Rightarrow> bool" where
  "ciEqual a b \<longleftrightarrow> map canonicalize a = map canonicalize b"

definition spec_shapeHere :: "jsstring \<Rightarrow> jsstring \<Rightarrow> jsstring \<Rightarrow> nat \<Rightarrow> bool" where
  \<comment> \<open>the text begins with the first literal, \<open>n\<close> digits, the second literal and a letter\<close>
  "spec_shapeHere lit1 lit2 t n \<longleftrightarrow>
     0 < n \<and> length lit1 + n + length lit2 < length t
     \<and> ciEqual (take (length lit1) t) lit1
     \<and> list_all isDigit (take n (drop (length lit1) t))
     \<and> ciEqual (take (length lit2) (drop (length lit1 + n) t)) lit2
     \<and> isLetter (t ! (length lit1 + n + length lit2))"

definition spec_digits :: "jsstring \<Rightarrow> jsstring \<Rightarrow> nat \<Rightarrow> jsstring" where
  \<comment> \<open>the numeric segment of a shape\<close>
  "spec_digits lit1 t n = take n (drop (length lit1) t)"

definition spec_index :: "jsstring \<Rightarrow> jsstring \<Rightarrow> jsstring \<Rightarrow> nat \<Rightarrow> jsstring" where
  \<comment> \<open>the letter of a shape, with the digit that follows it when there is one\<close>
  "spec_index lit1 lit2 t n =
     (let u = drop (length lit1 + n + length lit2) t
      in take 1 u @ filter isDigit (take 1 (drop 1 u)))"

definition spec_shapeOccurs :: "jsstring \<Rightarrow> jsstring \<Rightarrow> jsstring \<Rightarrow> bool" where
  \<comment> \<open>the shape lies somewhere in the URL\<close>
  "spec_shapeOccurs lit1 lit2 url \<longleftrightarrow>
     (\<exists>i < length url. \<exists>n < length url. spec_shapeHere lit1 lit2 (drop i url) n)"

definition spec_accepted :: "jsstring \<Rightarrow> bool" where
  "spec_accepted url \<longleftrightarrow>
     spec_shapeOccurs (js ''/problemset/problem/'') (js ''/'') url
     \<or> spec_shapeOccurs (js ''/contest/'') (js ''/problem/'') url"

definition spec_referenceIndex :: "jsstring \<Rightarrow> bool" where
  \<comment> \<open>an index of the data model: an upper-case letter, then at most one digit\<close>
  "spec_referenceIndex ix \<longleftrightarrow>
     (case ix of
        [l] \<Rightarrow> isUpper l
      | [l, d] \<Rightarrow> isUpper l \<and> isDigit d
      | _ \<Rightarrow> False)"

fun spec_afterScheme :: "jsstring \<Rightarrow> jsstring option" where
  \<comment> \<open>what follows the first \<open>://\<close> of a URL\<close>
  "spec_afterScheme (a # b # c # rest) =
     (if a = 0x3A \<and> b = 0x2F \<and> c = 0x2F then Some rest else spec_afterScheme (b # c # rest))"
| "spec_afterScheme _ = None"

definition spec_urlPath :: "jsstring \<Rightarrow> jsstring" where
  \<comment> \<open>the URL from the first slash after the host on: the path, and the query and fragment
      behind it\<close>
  "spec_urlPath url =
     dropWhile (\<lambda>c. c \<noteq> 0x2F) (case spec_afterScheme url of None \<Rightarrow> url | Some r \<Rightarrow> r)"

definition spec_shapeBeginsPath :: "jsstring \<Rightarrow> bool" where
  \<comment> \<open>one of the two shapes lies at the start of the path\<close>
  "spec_shapeBeginsPath url \<longleftrightarrow>
     (\<exists>n < length url.
        spec_shapeHere (js ''/problemset/problem/'') (js ''/'') (spec_urlPath url) n
        \<or> spec_shapeHere (js ''/contest/'') (js ''/problem/'') (spec_urlPath url) n)"

section \<open>Pairing and label stripping, as the specification words them\<close>

definition spec_acceptedPair :: "element \<Rightarrow> element \<Rightarrow> bool" where
  \<comment> \<open>both texts are non-empty and under 200 characters\<close>
  "spec_acceptedPair inp outp \<longleftrightarrow>
     blockText inp \<noteq> [] \<and> blockText outp \<noteq> []
     \<and> length (blockText inp) < 200 \<and> length (blockText outp) < 200"

definition spec_pairs :: "element list \<Rightarrow> element list \<Rightarrow> test_case list" where
  \<comment> \<open>the accepted pairs of the \<open>i\<close>-th input block with the \<open>i\<close>-th output block, for
      \<open>i\<close> below the smaller of the two counts, in ascending order of \<open>i\<close>\<close>
  "spec_pairs inputs outputs =
     map (\<lambda>i. \<lparr>tc_input = blockText (inputs ! i), tc_output = blockText (outputs ! i),
               tc_explanation = None\<rparr>)
       (filter (\<lambda>i. spec_acceptedPair (inputs ! i) (outputs ! i))
          [0 ..< min (length inputs) (length outputs)])"

definition spec_stripLeadingLabel :: "jsstring \<Rightarrow> jsstring \<Rightarrow> jsstring" where
  \<comment> \<open>the label is taken off the start of the text, and nowhere else\<close>
  "spec_stripLeadingLabel label text =
     (if ciEqual (take (length label) text) label then drop (length label) text else text)"

definition spec_cutFirst :: "jsstring \<Rightarrow> jsstring \<Rightarrow> jsstring" where
  \<comment> \<open>the first occurrence of the word, in any letter case, is cut out of the text,
      wherever it lies\<close>
  "spec_cutFirst word text =
     (case find (\<lambda>i. ciEqual (take (length word) (drop i text)) word) [0 ..< length text] of
        None \<Rightarrow> text
      | Some i \<Rightarrow> take i text @ drop (i + length word) text)"

section \<open>More sample inputs\<close>

definition block :: "string \<Rightarrow> element" where
  \<comment> \<open>an element with the given text, without class or limit\<close>
  "block s =
     \<lparr>textContent = Some (js s), isSectionTitle = False, hasTimeLimit = False,
      hasMemoryLimit = False\<rparr>"

definition watermelonPage :: document where
  \<comment> \<open>two input blocks and two output blocks under \<open>pre\<close>\<close>
  "watermelonPage sel =
     (if sel = js ''.input pre'' then [block ''8'', block ''6'']
      else if sel = js ''.output pre'' then [block ''YES'', block ''YES'']
      else [])"

definition labelledPage :: document where
  \<comment> \<open>an input specification whose text starts with the label and names the word again\<close>
  "labelledPage sel =
     (if sel = js ''.input-specification'' then [block ''Input The first input line holds n'']
      else [])"

definition unlabelledPage :: document where
  \<comment> \<open>an input specification whose text does not start with the label\<close>
  "unlabelledPage sel =
     (if sel = js ''.input-specification'' then [block ''The first input line holds n'']
      else [])"

definition blogUrl :: jsstring where
  "blogUrl = js ''https://codeforces.com/blog/123''"

definition redirectUrl :: jsstring where
  \<comment> \<open>a blog entry, with a problem path in its query string\<close>
  "redirectUrl = js ''https://codeforces.com/blog/entry/1?back=/contest/4/problem/A''"

definition bothUrl :: jsstring where
  \<comment> \<open>a contest path, with a problem-set path in its query string\<close>
  "bothUrl = js ''https://codeforces.com/contest/4/problem/A?back=/problemset/problem/5/B''"

definition longIdUrl :: jsstring where
  \<comment> \<open>the contest id is \<open>2^53 + 1\<close>\<close>
  "longIdUrl = js ''https://codeforces.com/contest/9007199254740993/problem/A''"

section \<open>Evaluation of the sample inputs\<close>

lemmas url_eval =
  parseUrl_def urlMatch_def problemsetPattern_def contestPattern_def matchHere_def
  matchIndex_def js_def canonicalize_def isLower_def isDigit_def isLetter_def isUpper_def
  parseInt_def decimalValue_def digitValue_def toDouble_def toUpperCase_def

lemma parse_watermelonUrl:
  "parseUrl watermelonUrl = Some \<lparr>contestId = Num 4, problemIndex = js ''A''\<rparr>"
  by (simp add: watermelonUrl_def url_eval)

text \<open>
  C1. Whenever the URL is recognised, the request to the API fails, for whatever reason,
  and the scrape that follows succeeds, \<open>extractProblemData\<close> returns the scraped record
  itself, and the source of that record is the label \<open>Codeforces\<close>.
\<close>

theorem metadata_failure_is_not_fatal:
  assumes "parseUrl url = Some ref"
    and "fetchFromCodeforcesAPI env (contestId ref) (problemIndex ref) w = (Inl e, w1)"
    and "scrapeWithOptimizedPuppeteer env url w1 = (Inr d, w2)"
  shows "extractProblemData env url w = (Inr d, w2) \<and> source d = js ''Codeforces''"
proof -
  have "extractProblemData env url w = (Inr d, w2)"
    using assms by (simp add: extractProblemData_def)
  moreover have "source d = js ''Codeforces''"
    using assms(3)
    by (auto simp: scrapeWithOptimizedPuppeteer_def renderPage_def evaluatePage_def
        extractFromPage_def Let_def split: if_splits option.splits prod.splits sum.splits)
  ultimately show ?thesis by simp
qed

lemma fetch_offline:
  "fetchFromCodeforcesAPI offlineApi (Num 4) (js ''A'') initialWorld =
     (Inl ApiFetchFailed, \<lparr>trace = [ApiRequest], requests = 1, launches = 0, openBrowsers = []\<rparr>)"
  by (simp add: fetchFromCodeforcesAPI_def offlineApi_def initialWorld_def Let_def)

lemmas scrape_eval =
  scrapeWithOptimizedPuppeteer_def renderPage_def evaluatePage_def closeBrowser_def
  quietSession_def Let_def

theorem metadata_failure_is_not_fatal_witness:
  "extractProblemData offlineApi watermelonUrl initialWorld =
     (Inr (extractFromPage emptyPage),
      \<lparr>trace = [ApiRequest, Launch 0, Goto 0 watermelonUrl, Close 0],
       requests = 1, launches = 1, openBrowsers = []\<rparr>)
   \<and> source (extractFromPage emptyPage) = js ''Codeforces''"
proof -
  have s: "scrapeWithOptimizedPuppeteer offlineApi watermelonUrl
             \<lparr>trace = [ApiRequest], requests = 1, launches = 0, openBrowsers = []\<rparr> =
           (Inr (extractFromPage emptyPage),
            \<lparr>trace = [ApiRequest, Launch 0, Goto 0 watermelonUrl, Close 0],
             requests = 1, launches = 1, openBrowsers = []\<rparr>)"
    by (simp add: scrape_eval offlineApi_def)
  have f: "fetchFromCodeforcesAPI offlineApi
             (contestId \<lparr>contestId = Num 4, problemIndex = js ''A''\<rparr>)
             (problemIndex \<lparr>contestId = Num 4, problemIndex = js ''A''\<rparr>) initialWorld =
           (Inl ApiFetchFailed, \<lparr>trace = [ApiRequest], requests = 1, launches = 0, openBrowsers = []\<rparr>)"
    using fetch_offline by simp
  show ?thesis
    by (rule metadata_failure_is_not_fatal [OF parse_watermelonUrl f s])
qed

section \<open>The orchestrator\<close>

lemma scrape_difficulty:
  "scrapeWithOptimizedPuppeteer env url w = (Inr d, w') \<Longrightarrow> difficulty d = None"
  by (auto simp: scrapeWithOptimizedPuppeteer_def renderPage_def evaluatePage_def
      extractFromPage_def Let_def split: if_splits option.splits prod.splits sum.splits)

lemma extract_both:
  "parseUrl url = Some ref \<Longrightarrow>
   fetchFromCodeforcesAPI env (contestId ref) (problemIndex ref) w = (Inr a, w1) \<Longrightarrow>
   scrapeWithOptimizedPuppeteer env url w1 = (Inr d, w2) \<Longrightarrow>
   extractProblemData env url w = (Inr (combine (contestId ref) a d), w2)"
  by (simp add: extractProblemData_def)

lemma extract_api_failed:
  "parseUrl url = Some ref \<Longrightarrow>
   fetchFromCodeforcesAPI env (contestId ref) (problemIndex ref) w = (Inl e, w1) \<Longrightarrow>
   extractProblemData env url w = scrapeWithOptimizedPuppeteer env url w1"
  by (simp add: extractProblemData_def)

text \<open>
  C6, as amended. When the request to the API succeeds and the scrape that follows it
  succeeds, the record returned takes its title from the API's name unless that name is
  empty (then the scraped title), its difficulty from the API's rating, written after an
  asterisk, unless the rating is absent or zero (then the scraped difficulty), and its
  time limit, memory limit, description, input and output format, constraints and sample
  tests from the scraped record.
\<close>

theorem merge_policy:
  assumes "parseUrl url = Some ref"
    and "fetchFromCodeforcesAPI env (contestId ref) (problemIndex ref) w = (Inr a, w1)"
    and "scrapeWithOptimizedPuppeteer env url w1 = (Inr d, w2)"
  shows "\<exists>pd. extractProblemData env url w = (Inr pd, w2)
          \<and> title pd = (if api_name a \<noteq> [] then api_name a else title d)
          \<and> difficulty pd =
              (case api_rating a of
                 None \<Rightarrow> difficulty d
               | Some r \<Rightarrow> if r \<noteq> Num 0 then Some (js ''*'' @ numberToString r) else difficulty d)
          \<and> timeLimit pd = timeLimit d \<and> memoryLimit pd = memoryLimit d
          \<and> description pd = description d \<and> inputFormat pd = inputFormat d
          \<and> outputFormat pd = outputFormat d \<and> constraints pd = constraints d
          \<and> sampleTests pd = sampleTests d"
  using extract_both [OF assms]
  by (simp add: combine_def orElse_def truthyNumber_def split: option.splits)

lemma fetch_online:
  "fetchFromCodeforcesAPI onlineApi (Num 4) (js ''A'') initialWorld =
     (Inr watermelon, \<lparr>trace = [ApiRequest], requests = 1, launches = 0, openBrowsers = []\<rparr>)"
  by (simp add: fetchFromCodeforcesAPI_def onlineApi_def initialWorld_def watermelon_def Let_def)

lemma scrape_online:
  "scrapeWithOptimizedPuppeteer onlineApi watermelonUrl
     \<lparr>trace = [ApiRequest], requests = 1, launches = 0, openBrowsers = []\<rparr> =
   (Inr (extractFromPage emptyPage),
    \<lparr>trace = [ApiRequest, Launch 0, Goto 0 watermelonUrl, Close 0],
     requests = 1, launches = 1, openBrowsers = []\<rparr>)"
  by (simp add: scrape_eval onlineApi_def)

lemmas numberToString_eval =
  naturalToString_def shortestValue_def shortestAt_def toDouble_def decimalDigits.simps
  Let_def js_def

lemma numberToString_800: "numberToString (Num 800) = js ''800''"
  by (simp add: numberToString_eval)

lemma title_emptyPage: "title (extractFromPage emptyPage) = js ''Problem Title''"
  by (simp add: extractFromPage_def extractTitle_def emptyPage_def querySelector_def
      replaceAtStart_def indexPrefix_def orElse_def)

theorem merge_policy_witness:
  "\<exists>pd. extractProblemData onlineApi watermelonUrl initialWorld =
          (Inr pd, \<lparr>trace = [ApiRequest, Launch 0, Goto 0 watermelonUrl, Close 0],
                    requests = 1, launches = 1, openBrowsers = []\<rparr>)
        \<and> title pd = js ''Watermelon''
        \<and> title (extractFromPage emptyPage) = js ''Problem Title''
        \<and> difficulty pd = Some (js ''*800'')
        \<and> timeLimit pd = timeLimit (extractFromPage emptyPage)
        \<and> sampleTests pd = sampleTests (extractFromPage emptyPage)"
proof -
  have f: "fetchFromCodeforcesAPI onlineApi
             (contestId \<lparr>contestId = Num 4, problemIndex = js ''A''\<rparr>)
             (problemIndex \<lparr>contestId = Num 4, problemIndex = js ''A''\<rparr>) initialWorld =
           (Inr watermelon, \<lparr>trace = [ApiRequest], requests = 1, launches = 0, openBrowsers = []\<rparr>)"
    using fetch_online by simp
  have n: "api_name watermelon = js ''Watermelon''" "api_rating watermelon = Some (Num 800)"
    by (simp_all add: watermelon_def)
  have j: "js ''Watermelon'' \<noteq> []" "js ''*'' @ js ''800'' = js ''*800''"
    by (simp_all add: js_def)
  from merge_policy [OF parse_watermelonUrl f scrape_online]
  obtain pd where
    "extractProblemData onlineApi watermelonUrl initialWorld =
       (Inr pd, \<lparr>trace = [ApiRequest, Launch 0, Goto 0 watermelonUrl, Close 0],
                 requests = 1, launches = 1, openBrowsers = []\<rparr>)"
    "title pd = js ''Watermelon''" "difficulty pd = Some (js ''*800'')"
    "timeLimit pd = timeLimit (extractFromPage emptyPage)"
    "sampleTests pd = sampleTests (extractFromPage emptyPage)"
    by (auto simp: n j numberToString_800 simp del: numberToString.simps)
  with title_emptyPage show ?thesis
    by blast
qed


lemma fetch_zeroRated:
  "fetchFromCodeforcesAPI zeroRatedApi (Num 4) (js ''A'') initialWorld =
     (Inr zeroRated, \<lparr>trace = [ApiRequest], requests = 1, launches = 0, openBrowsers = []\<rparr>)"
  by (simp add: fetchFromCodeforcesAPI_def zeroRatedApi_def initialWorld_def zeroRated_def
      watermelon_def Let_def)

lemma scrape_zeroRated:
  "scrapeWithOptimizedPuppeteer zeroRatedApi watermelonUrl
     \<lparr>trace = [ApiRequest], requests = 1, launches = 0, openBrowsers = []\<rparr> =
   (Inr (extractFromPage emptyPage),
    \<lparr>trace = [ApiRequest, Launch 0, Goto 0 watermelonUrl, Close 0],
     requests = 1, launches = 1, openBrowsers = []\<rparr>)"
  by (simp add: scrape_eval zeroRatedApi_def)

lemma extract_zeroRated:
  "extractProblemData zeroRatedApi watermelonUrl initialWorld =
     (Inr (combine (Num 4) zeroRated (extractFromPage emptyPage)),
      \<lparr>trace = [ApiRequest, Launch 0, Goto 0 watermelonUrl, Close 0],
       requests = 1, launches = 1, openBrowsers = []\<rparr>)"
  using extract_both [OF parse_watermelonUrl, of zeroRatedApi initialWorld zeroRated]
    fetch_zeroRated scrape_zeroRated
  by simp

lemma difficulty_zeroRated:
  "difficulty (combine (Num 4) zeroRated (extractFromPage emptyPage)) = None"
  by (simp add: combine_def zeroRated_def truthyNumber_def extractFromPage_def)

text \<open>
  A record of the API that carries the rating zero: C6 as the specification words it asks
  for the difficulty \<open>*0\<close>, and the program returns the scraped difficulty, which is
  undefined.
\<close>

theorem merge_policy_counterexample:
  "fst (fetchFromCodeforcesAPI zeroRatedApi (Num 4) (js ''A'') initialWorld) = Inr zeroRated
   \<and> api_rating zeroRated = Some (Num 0)
   \<and> numberToString (Num 0) = js ''0''
   \<and> map_sum id difficulty (fst (extractProblemData zeroRatedApi watermelonUrl initialWorld))
       \<noteq> Inr (Some (js ''*0''))"
proof -
  have "fst (fetchFromCodeforcesAPI zeroRatedApi (Num 4) (js ''A'') initialWorld) = Inr zeroRated"
    by (simp add: fetch_zeroRated)
  moreover have "api_rating zeroRated = Some (Num 0)"
    by (simp add: zeroRated_def)
  moreover have "numberToString (Num 0) = js ''0''"
    by (simp add: numberToString_eval)
  moreover have
    "map_sum id difficulty (fst (extractProblemData zeroRatedApi watermelonUrl initialWorld))
       \<noteq> Inr (Some (js ''*0''))"
    by (simp add: extract_zeroRated difficulty_zeroRated)
  ultimately show ?thesis
    by blast
qed

text \<open>
  C10, as amended. A successful scrape never carries a difficulty. When the scrape that
  follows the request to the API succeeds, the difficulty of the record returned is defined
  if and only if the request succeeded and its record carries a rating other than zero,
  and it is then an asterisk followed by that rating.
\<close>

theorem difficulty_of_result:
  assumes "parseUrl url = Some ref"
    and "fetchFromCodeforcesAPI env (contestId ref) (problemIndex ref) w = (fetched, w1)"
    and "scrapeWithOptimizedPuppeteer env url w1 = (Inr d, w2)"
  shows "difficulty d = None
         \<and> (\<exists>pd. extractProblemData env url w = (Inr pd, w2)
               \<and> (difficulty pd \<noteq> None \<longleftrightarrow>
                    (\<exists>a r. fetched = Inr a \<and> api_rating a = Some r \<and> r \<noteq> Num 0))
               \<and> (\<forall>a r. fetched = Inr a \<and> api_rating a = Some r \<and> r \<noteq> Num 0 \<longrightarrow>
                    difficulty pd = Some (js ''*'' @ numberToString r)))"
proof (cases fetched)
  case (Inl e)
  have "extractProblemData env url w = (Inr d, w2)"
    using extract_api_failed [OF assms(1), of env w e w1] assms(2,3) Inl by simp
  with scrape_difficulty [OF assms(3)] Inl show ?thesis
    by simp
next
  case (Inr a)
  have "extractProblemData env url w = (Inr (combine (contestId ref) a d), w2)"
    using extract_both [OF assms(1), of env w a w1 d w2] assms(2,3) Inr by simp
  with scrape_difficulty [OF assms(3)] Inr show ?thesis
    by (auto simp: combine_def truthyNumber_def js_def split: option.splits)
qed

theorem difficulty_of_result_witness:
  "difficulty (extractFromPage emptyPage) = None
   \<and> (\<exists>pd. extractProblemData onlineApi watermelonUrl initialWorld =
              (Inr pd, \<lparr>trace = [ApiRequest, Launch 0, Goto 0 watermelonUrl, Close 0],
                        requests = 1, launches = 1, openBrowsers = []\<rparr>)
            \<and> difficulty pd = Some (js ''*800''))"
proof -
  have f: "fetchFromCodeforcesAPI onlineApi
             (contestId \<lparr>contestId = Num 4, problemIndex = js ''A''\<rparr>)
             (problemIndex \<lparr>contestId = Num 4, problemIndex = js ''A''\<rparr>) initialWorld =
           (Inr watermelon, \<lparr>trace = [ApiRequest], requests = 1, launches = 0, openBrowsers = []\<rparr>)"
    using fetch_online by simp
  have r: "api_rating watermelon = Some (Num 800)" "Num 800 \<noteq> Num 0"
    by (simp_all add: watermelon_def)
  have j: "js ''*'' @ js ''800'' = js ''*800''"
    by (simp add: js_def)
  from difficulty_of_result [OF parse_watermelonUrl f scrape_online]
  obtain pd where
    "difficulty (extractFromPage emptyPage) = None"
    "extractProblemData onlineApi watermelonUrl initialWorld =
       (Inr pd, \<lparr>trace = [ApiRequest, Launch 0, Goto 0 watermelonUrl, Close 0],
                 requests = 1, launches = 1, openBrowsers = []\<rparr>)"
    "\<forall>a r. Inr watermelon = (Inr a :: error + api_problem) \<and> api_rating a = Some r \<and> r \<noteq> Num 0 \<longrightarrow>
       difficulty pd = Some (js ''*'' @ numberToString r)"
    by blast
  with r j numberToString_800 show ?thesis
    by (metis)
qed

text \<open>
  The request succeeds and its record carries a rating, namely zero, and yet the
  difficulty returned is undefined.
\<close>

theorem difficulty_of_result_counterexample:
  "fst (fetchFromCodeforcesAPI zeroRatedApi (Num 4) (js ''A'') initialWorld) = Inr zeroRated
   \<and> api_rating zeroRated \<noteq> None
   \<and> map_sum id difficulty (fst (extractProblemData zeroRatedApi watermelonUrl initialWorld))
       = Inr None"
proof -
  have "fst (fetchFromCodeforcesAPI zeroRatedApi (Num 4) (js ''A'') initialWorld) = Inr zeroRated"
    by (simp add: fetch_zeroRated)
  moreover have "api_rating zeroRated \<noteq> None"
    by (simp add: zeroRated_def)
  moreover have
    "map_sum id difficulty (fst (extractProblemData zeroRatedApi watermelonUrl initialWorld))
       = Inr None"
    by (simp add: extract_zeroRated difficulty_zeroRated)
  ultimately show ?thesis
    by blast
qed

lemma fetch_flaky:
  "fetchFromCodeforcesAPI flakyBrowser (Num 4) (js ''A'') initialWorld =
     (Inr watermelon, \<lparr>trace = [ApiRequest], requests = 1, launches = 0, openBrowsers = []\<rparr>)"
  by (simp add: fetchFromCodeforcesAPI_def flakyBrowser_def initialWorld_def watermelon_def Let_def)

lemma scrape_flaky_first:
  "scrapeWithOptimizedPuppeteer flakyBrowser watermelonUrl
     \<lparr>trace = [ApiRequest], requests = 1, launches = 0, openBrowsers = []\<rparr> =
   (Inl ScrapeFailed,
    \<lparr>trace = [ApiRequest, Launch 0, Goto 0 watermelonUrl, Close 0],
     requests = 1, launches = 1, openBrowsers = []\<rparr>)"
  by (simp add: scrape_eval flakyBrowser_def timedOutSession_def)

lemma scrape_flaky_second:
  "scrapeWithOptimizedPuppeteer flakyBrowser watermelonUrl
     \<lparr>trace = [ApiRequest, Launch 0, Goto 0 watermelonUrl, Close 0],
      requests = 1, launches = 1, openBrowsers = []\<rparr> =
   (Inr (extractFromPage emptyPage),
    \<lparr>trace = [ApiRequest, Launch 0, Goto 0 watermelonUrl, Close 0,
              Launch 1, Goto 1 watermelonUrl, Close 1],
     requests = 1, launches = 2, openBrowsers = []\<rparr>)"
  by (simp add: scrape_eval flakyBrowser_def timedOutSession_def)

lemma extract_scrape_failed:
  "parseUrl url = Some ref \<Longrightarrow>
   fetchFromCodeforcesAPI env (contestId ref) (problemIndex ref) w = (Inr a, w1) \<Longrightarrow>
   scrapeWithOptimizedPuppeteer env url w1 = (Inl e, w2) \<Longrightarrow>
   extractProblemData env url w = scrapeWithOptimizedPuppeteer env url w2"
  by (simp add: extractProblemData_def)

text \<open>
  C2. The specification asks that the scrape be attempted at most once in a call. Here
  the API answers and the first rendering session times out on navigation: the \<open>catch\<close> clause of
  \<open>extractProblemData\<close>, written for a failure of the API, catches the failure of the scrape
  as well and scrapes again, so that two sessions are launched in the one call.
\<close>

theorem scrape_repeated_after_its_failure:
  "extractProblemData flakyBrowser watermelonUrl initialWorld =
     (Inr (extractFromPage emptyPage),
      \<lparr>trace = [ApiRequest, Launch 0, Goto 0 watermelonUrl, Close 0,
                Launch 1, Goto 1 watermelonUrl, Close 1],
       requests = 1, launches = 2, openBrowsers = []\<rparr>)"
proof -
  have f: "fetchFromCodeforcesAPI flakyBrowser
             (contestId \<lparr>contestId = Num 4, problemIndex = js ''A''\<rparr>)
             (problemIndex \<lparr>contestId = Num 4, problemIndex = js ''A''\<rparr>) initialWorld =
           (Inr watermelon, \<lparr>trace = [ApiRequest], requests = 1, launches = 0, openBrowsers = []\<rparr>)"
    using fetch_flaky by simp
  show ?thesis
    unfolding extract_scrape_failed [OF parse_watermelonUrl f scrape_flaky_first]
    by (rule scrape_flaky_second)
qed

lemma renderPage_trace:
  "renderPage s url k w = (r, w') \<Longrightarrow>
   openBrowsers w' = openBrowsers w \<and>
   (\<exists>mid. trace w' = trace w @ mid \<and> Close k \<notin> set mid)"
  by (auto simp: renderPage_def Let_def split: if_splits)

text \<open>
  C9. Whatever the rendering session does, a call of \<open>scrapeWithOptimizedPuppeteer\<close>
  leaves no browser open that was not open before; and when the launch succeeds, the
  events of the call end with the closing of the browser launched, which is closed once
  and is not among the open browsers afterwards.
\<close>

theorem browser_closed_on_every_path:
  fixes env url w
  defines "k \<equiv> launches w"
  defines "w' \<equiv> snd (scrapeWithOptimizedPuppeteer env url w)"
  shows "set (openBrowsers w') \<subseteq> set (openBrowsers w)
         \<and> (\<not> launchFails (sessions env k) \<longrightarrow>
              k \<notin> set (openBrowsers w')
              \<and> (\<exists>mid. trace w' = trace w @ Launch k # mid @ [Close k] \<and> Close k \<notin> set mid))"
proof (cases "launchFails (sessions env k)")
  case True
  then show ?thesis
    by (simp add: w'_def k_def scrapeWithOptimizedPuppeteer_def Let_def)
next
  case False
  let ?w2 = "w\<lparr>trace := trace w @ [Launch k], launches := Suc k, openBrowsers := k # openBrowsers w\<rparr>"
  obtain r w3 where r: "renderPage (sessions env k) url k ?w2 = (r, w3)"
    by (cases "renderPage (sessions env k) url k ?w2")
  from renderPage_trace [OF r] obtain mid where
    m: "openBrowsers w3 = k # openBrowsers w" "trace w3 = (trace w @ [Launch k]) @ mid"
      "Close k \<notin> set mid"
    by auto
  have w': "w' = closeBrowser k w3"
    using False r by (simp add: w'_def k_def scrapeWithOptimizedPuppeteer_def Let_def)
  have "trace w' = trace w @ Launch k # mid @ [Close k]"
    using m by (simp add: w' closeBrowser_def)
  moreover have "openBrowsers w' = removeAll k (openBrowsers w)"
    using m by (simp add: w' closeBrowser_def)
  ultimately show ?thesis
    using m(3) by auto
qed

theorem browser_closed_on_every_path_witness:
  "\<not> launchFails (sessions flakyBrowser (launches initialWorld))
   \<and> scrapeWithOptimizedPuppeteer flakyBrowser watermelonUrl initialWorld =
       (Inl ScrapeFailed,
        \<lparr>trace = [Launch 0, Goto 0 watermelonUrl, Close 0],
         requests = 0, launches = 1, openBrowsers = []\<rparr>)
   \<and> launches initialWorld \<notin>
       set (openBrowsers (snd (scrapeWithOptimizedPuppeteer flakyBrowser watermelonUrl initialWorld)))"
proof (intro conjI)
  show l: "\<not> launchFails (sessions flakyBrowser (launches initialWorld))"
    by (simp add: flakyBrowser_def timedOutSession_def quietSession_def initialWorld_def)
  show "scrapeWithOptimizedPuppeteer flakyBrowser watermelonUrl initialWorld =
          (Inl ScrapeFailed,
           \<lparr>trace = [Launch 0, Goto 0 watermelonUrl, Close 0],
            requests = 0, launches = 1, openBrowsers = []\<rparr>)"
    by (simp add: scrape_eval flakyBrowser_def timedOutSession_def initialWorld_def)
  from browser_closed_on_every_path [of flakyBrowser watermelonUrl initialWorld] l
  show "launches initialWorld \<notin>
          set (openBrowsers (snd (scrapeWithOptimizedPuppeteer flakyBrowser watermelonUrl initialWorld)))"
    by blast
qed

section \<open>Recognition of the URL\<close>

lemma matchLiteral_Some_iff:
  "matchLiteral lit s = Some r \<longleftrightarrow>
     length lit \<le> length s \<and> ciEqual (take (length lit) s) lit \<and> r = drop (length lit) s"
  by (induction lit s rule: matchLiteral.induct) (auto simp: ciEqual_def)

lemma matchLiteral_None_iff:
  "matchLiteral lit s = None \<longleftrightarrow>
     \<not> (length lit \<le> length s \<and> ciEqual (take (length lit) s) lit)"
  using matchLiteral_Some_iff [of lit s] by (cases "matchLiteral lit s") auto


lemma regexMatch_None_iff:
  "regexMatch m s = None \<longleftrightarrow> (\<forall>i \<le> length s. m (drop i s) = None)"
proof (induction s)
  case Nil
  then show ?case by simp
next
  case (Cons c cs)
  have "(\<forall>i \<le> length (c # cs). m (drop i (c # cs)) = None) \<longleftrightarrow>
        m (c # cs) = None \<and> (\<forall>i \<le> length cs. m (drop i cs) = None)"
    by (auto simp: drop_Cons split: nat.splits)
  with Cons show ?case
    by (auto split: option.splits)
qed

lemma regexMatch_Some_iff:
  "regexMatch m s = Some r \<longleftrightarrow>
     (\<exists>i \<le> length s. m (drop i s) = Some r \<and> (\<forall>j < i. m (drop j s) = None))"
proof (induction s)
  case Nil
  then show ?case by simp
next
  case (Cons c cs)
  show ?case
  proof (cases "m (c # cs)")
    case (Some r')
    have "(\<exists>i \<le> length (c # cs). m (drop i (c # cs)) = Some r \<and> (\<forall>j < i. m (drop j (c # cs)) = None))
          \<longleftrightarrow> r' = r"
    proof
      assume "\<exists>i \<le> length (c # cs). m (drop i (c # cs)) = Some r \<and> (\<forall>j < i. m (drop j (c # cs)) = None)"
      then obtain i where i: "m (drop i (c # cs)) = Some r" "\<forall>j < i. m (drop j (c # cs)) = None"
        by blast
      have "i = 0"
      proof (rule ccontr)
        assume "i \<noteq> 0"
        then have "m (drop 0 (c # cs)) = None" using i(2) by blast
        with Some show False by simp
      qed
      with i(1) Some show "r' = r" by simp
    next
      assume "r' = r"
      with Some have "m (drop 0 (c # cs)) = Some r \<and> (\<forall>j < (0::nat). m (drop j (c # cs)) = None)"
        by simp
      then show "\<exists>i \<le> length (c # cs). m (drop i (c # cs)) = Some r \<and> (\<forall>j < i. m (drop j (c # cs)) = None)"
        by blast
    qed
    with Some show ?thesis by simp
  next
    case None
    have "(\<exists>i \<le> length (c # cs). m (drop i (c # cs)) = Some r \<and> (\<forall>j < i. m (drop j (c # cs)) = None))
          \<longleftrightarrow> (\<exists>i \<le> length cs. m (drop i cs) = Some r \<and> (\<forall>j < i. m (drop j cs) = None))"
      (is "?L \<longleftrightarrow> ?R")
    proof
      assume ?L
      then obtain i where i: "i \<le> length (c # cs)" "m (drop i (c # cs)) = Some r"
        "\<forall>j < i. m (drop j (c # cs)) = None"
        by blast
      from i(2) None obtain i' where i': "i = Suc i'"
        by (cases i) auto
      have "\<forall>j < i'. m (drop j cs) = None"
      proof (intro allI impI)
        fix j assume "j < i'"
        then have "Suc j < i" using i' by simp
        with i(3) have "m (drop (Suc j) (c # cs)) = None" by blast
        then show "m (drop j cs) = None" by simp
      qed
      with i i' show ?R
        by auto
    next
      assume ?R
      then obtain i where i: "i \<le> length cs" "m (drop i cs) = Some r" "\<forall>j < i. m (drop j cs) = None"
        by blast
      have "\<forall>j < Suc i. m (drop j (c # cs)) = None"
      proof (intro allI impI)
        fix j assume j: "j < Suc i"
        show "m (drop j (c # cs)) = None"
        proof (cases j)
          case 0
          with None show ?thesis by simp
        next
          case (Suc j')
          with j i(3) show ?thesis by simp
        qed
      qed
      moreover have "Suc i \<le> length (c # cs)" "m (drop (Suc i) (c # cs)) = Some r"
        using i by simp_all
      ultimately show ?L
        by blast
    qed
    with None Cons show ?thesis by simp
  qed
qed


lemma matchIndex_Some_iff:
  "matchIndex u = Some ix \<longleftrightarrow>
     u \<noteq> [] \<and> isLetter (u ! 0) \<and> ix = take 1 u @ filter isDigit (take 1 (drop 1 u))"
proof (cases u)
  case Nil
  then show ?thesis by (simp add: matchIndex_def)
next
  case (Cons l v)
  then show ?thesis
    by (cases v) (auto simp: matchIndex_def)
qed

lemma digits_run:
  assumes "list_all isDigit (take n t)" "n < length t" "\<not> isDigit (t ! n)"
  shows "takeWhile isDigit t = take n t" and "dropWhile isDigit t = drop n t"
proof -
  show *: "takeWhile isDigit t = take n t"
  proof (rule takeWhile_eq_take_P_nth)
    fix i assume "i < n" "i < length t"
    with assms(1) show "isDigit (t ! i)"
      by (simp add: list_all_length)
  next
    show "\<not> isDigit (t ! n)" by (rule assms(3))
  qed
  have "dropWhile isDigit t = drop (length (takeWhile isDigit t)) t"
    by (rule dropWhile_eq_drop)
  with * assms(2) show "dropWhile isDigit t = drop n t"
    by simp
qed

lemma ciEqual_slash_head:
  assumes "ciEqual (take (Suc k) s) (0x2F # rest)"
  shows "s \<noteq> [] \<and> s ! 0 = 0x2F"
proof (cases s)
  case Nil
  with assms show ?thesis by (simp add: ciEqual_def)
next
  case (Cons c cs)
  with assms have "canonicalize c = canonicalize 0x2F"
    by (simp add: ciEqual_def)
  then have "c = 0x2F"
    by (auto simp: canonicalize_def isLower_def split: if_splits)
  with Cons show ?thesis by simp
qed

lemma shapeHere_run:
  assumes "spec_shapeHere lit1 (0x2F # rest2) t n"
  shows "takeWhile isDigit (drop (length lit1) t) = take n (drop (length lit1) t)"
    and "dropWhile isDigit (drop (length lit1) t) = drop (length lit1 + n) t"
proof -
  let ?t1 = "drop (length lit1) t"
  from assms have n: "n < length ?t1" and d: "list_all isDigit (take n ?t1)"
    and c: "ciEqual (take (Suc (length rest2)) (drop n ?t1)) (0x2F # rest2)"
    by (auto simp: spec_shapeHere_def add.commute)
  from ciEqual_slash_head [OF c] n have "?t1 ! n = 0x2F"
    by (simp add: add.commute)
  then have nd: "\<not> isDigit (?t1 ! n)"
    by (simp add: isDigit_def)
  show "takeWhile isDigit ?t1 = take n ?t1"
    by (rule digits_run(1) [OF d n nd])
  show "dropWhile isDigit ?t1 = drop (length lit1 + n) t"
    using digits_run(2) [OF d n nd] by (simp add: add.commute)
qed

lemma matchHere_of_shape:
  assumes "spec_shapeHere lit1 (0x2F # rest2) t n"
  shows "matchHere lit1 (0x2F # rest2) t =
           Some (spec_digits lit1 t n, spec_index lit1 (0x2F # rest2) t n)"
proof -
  let ?lit2 = "0x2F # rest2"
  let ?t1 = "drop (length lit1) t"
  let ?u = "drop (length lit1 + n + length ?lit2) t"
  from assms have l1: "matchLiteral lit1 t = Some ?t1"
    by (auto simp: matchLiteral_Some_iff spec_shapeHere_def)
  from assms have n0: "take n ?t1 \<noteq> []"
    by (auto simp: spec_shapeHere_def)
  from assms have l2: "matchLiteral ?lit2 (drop (length lit1 + n) t) = Some ?u"
    by (auto simp: matchLiteral_Some_iff spec_shapeHere_def add.commute add.left_commute)
  from assms have u: "?u \<noteq> []" "isLetter (?u ! 0)"
    by (auto simp: spec_shapeHere_def add.commute add.left_commute)
  then have ix: "matchIndex ?u = Some (spec_index lit1 ?lit2 t n)"
    by (simp add: matchIndex_Some_iff spec_index_def Let_def)
  show ?thesis
    using l1 n0 l2 ix shapeHere_run [OF assms]
    by (simp add: matchHere_def spec_digits_def Let_def)
qed

lemma shape_of_matchHere:
  assumes "matchHere lit1 (0x2F # rest2) t = Some (ds, ix)"
  shows "\<exists>n \<le> length t. spec_shapeHere lit1 (0x2F # rest2) t n"
proof -
  let ?lit2 = "0x2F # rest2"
  let ?t1 = "drop (length lit1) t"
  let ?n = "length (takeWhile isDigit ?t1)"
  from assms have l1: "length lit1 \<le> length t" "ciEqual (take (length lit1) t) lit1"
    by (auto simp: matchHere_def matchLiteral_Some_iff split: option.splits)
  from assms l1 have m: "matchLiteral lit1 t = Some ?t1"
    by (simp add: matchLiteral_Some_iff)
  from assms m have n0: "takeWhile isDigit ?t1 \<noteq> []"
    by (auto simp: matchHere_def Let_def split: option.splits if_splits)
  from assms m n0 obtain u where
    l2: "matchLiteral ?lit2 (dropWhile isDigit ?t1) = Some u" and ix: "matchIndex u = Some ix"
    by (auto simp: matchHere_def Let_def split: option.splits if_splits)
  have dw: "dropWhile isDigit ?t1 = drop (length lit1 + ?n) t"
    by (simp add: dropWhile_eq_drop add.commute)
  from l2 have l2': "length ?lit2 \<le> length (drop (length lit1 + ?n) t)"
    "ciEqual (take (length ?lit2) (drop (length lit1 + ?n) t)) ?lit2"
    "u = drop (length lit1 + ?n + length ?lit2) t"
    unfolding dw matchLiteral_Some_iff by (simp_all add: add.commute add.left_commute)
  from ix have u: "u \<noteq> []" "isLetter (u ! 0)"
    by (simp_all add: matchIndex_Some_iff)
  have len: "length lit1 + ?n + length ?lit2 < length t"
    using u(1) l2'(3) by simp
  have "list_all isDigit (take ?n ?t1)"
    by (metis takeWhile_eq_take list_all_iff set_takeWhileD)
  moreover have "isLetter (t ! (length lit1 + ?n + length ?lit2))"
    using u(2) l2'(3) len by simp
  ultimately have "spec_shapeHere lit1 ?lit2 t ?n"
    using n0 len l1 l2'(2) by (simp add: spec_shapeHere_def)
  moreover have "?n \<le> length t"
    using len by simp
  ultimately show ?thesis
    by blast
qed


lemma matchHere_Some_iff:
  "matchHere lit1 (0x2F # rest2) t = Some (ds, ix) \<longleftrightarrow>
     (\<exists>n \<le> length t. spec_shapeHere lit1 (0x2F # rest2) t n
        \<and> ds = spec_digits lit1 t n \<and> ix = spec_index lit1 (0x2F # rest2) t n)"
proof
  assume m: "matchHere lit1 (0x2F # rest2) t = Some (ds, ix)"
  from shape_of_matchHere [OF m] obtain n where
    n: "n \<le> length t" "spec_shapeHere lit1 (0x2F # rest2) t n"
    by blast
  from matchHere_of_shape [OF n(2)] m n show
    "\<exists>n \<le> length t. spec_shapeHere lit1 (0x2F # rest2) t n
        \<and> ds = spec_digits lit1 t n \<and> ix = spec_index lit1 (0x2F # rest2) t n"
    by auto
next
  assume "\<exists>n \<le> length t. spec_shapeHere lit1 (0x2F # rest2) t n
        \<and> ds = spec_digits lit1 t n \<and> ix = spec_index lit1 (0x2F # rest2) t n"
  then show "matchHere lit1 (0x2F # rest2) t = Some (ds, ix)"
    using matchHere_of_shape by blast
qed

lemma matchHere_None_iff:
  "matchHere lit1 (0x2F # rest2) t = None \<longleftrightarrow> (\<forall>n. \<not> spec_shapeHere lit1 (0x2F # rest2) t n)"
proof (cases "matchHere lit1 (0x2F # rest2) t")
  case None
  then show ?thesis
    using matchHere_of_shape [of lit1 rest2 t] by auto
next
  case (Some r)
  obtain ds ix where "r = (ds, ix)" by (cases r)
  with Some shape_of_matchHere [of lit1 rest2 t ds ix] show ?thesis
    by auto
qed

lemma shapeHere_bounds:
  "spec_shapeHere lit1 lit2 (drop i url) n \<Longrightarrow> i < length url \<and> n < length url"
  by (auto simp: spec_shapeHere_def)

lemma regexMatch_matchHere_None_iff:
  "regexMatch (matchHere lit1 (0x2F # rest2)) url = None \<longleftrightarrow>
     \<not> spec_shapeOccurs lit1 (0x2F # rest2) url"
proof -
  have "(\<forall>i \<le> length url. \<forall>n. \<not> spec_shapeHere lit1 (0x2F # rest2) (drop i url) n) \<longleftrightarrow>
        \<not> spec_shapeOccurs lit1 (0x2F # rest2) url"
    unfolding spec_shapeOccurs_def using shapeHere_bounds [of lit1 "0x2F # rest2" _ url]
    by (meson less_imp_le_nat)
  then show ?thesis
    by (simp add: regexMatch_None_iff matchHere_None_iff)
qed

lemma regexMatch_matchHere_Some:
  assumes "regexMatch (matchHere lit1 (0x2F # rest2)) url = Some (ds, ix)"
  shows "\<exists>i n. i < length url \<and> spec_shapeHere lit1 (0x2F # rest2) (drop i url) n
           \<and> (\<forall>j < i. \<forall>m. \<not> spec_shapeHere lit1 (0x2F # rest2) (drop j url) m)
           \<and> ds = spec_digits lit1 (drop i url) n
           \<and> ix = spec_index lit1 (0x2F # rest2) (drop i url) n"
proof -
  from assms obtain i where
    i: "matchHere lit1 (0x2F # rest2) (drop i url) = Some (ds, ix)"
       "\<forall>j < i. matchHere lit1 (0x2F # rest2) (drop j url) = None"
    unfolding regexMatch_Some_iff by blast
  from i(1) obtain n where
    n: "spec_shapeHere lit1 (0x2F # rest2) (drop i url) n"
       "ds = spec_digits lit1 (drop i url) n" "ix = spec_index lit1 (0x2F # rest2) (drop i url) n"
    unfolding matchHere_Some_iff by blast
  from i(2) have "\<forall>j < i. \<forall>m. \<not> spec_shapeHere lit1 (0x2F # rest2) (drop j url) m"
    by (simp add: matchHere_None_iff)
  with n shapeHere_bounds [OF n(1)] show ?thesis
    by blast
qed

lemma js_slash: "js ''/'' = 0x2F # []" "js ''/problem/'' = 0x2F # js ''problem/''"
  by (simp_all add: js_def)

lemma urlMatch_None_iff: "urlMatch url = None \<longleftrightarrow> \<not> spec_accepted url"
proof -
  have a: "regexMatch problemsetPattern url = None \<longleftrightarrow>
           \<not> spec_shapeOccurs (js ''/problemset/problem/'') (js ''/'') url"
    unfolding problemsetPattern_def js_slash by (rule regexMatch_matchHere_None_iff)
  have b: "regexMatch contestPattern url = None \<longleftrightarrow>
           \<not> spec_shapeOccurs (js ''/contest/'') (js ''/problem/'') url"
    unfolding contestPattern_def js_slash by (rule regexMatch_matchHere_None_iff)
  show ?thesis
    using a b by (cases "regexMatch problemsetPattern url") (auto simp: urlMatch_def spec_accepted_def)
qed

lemma parseUrl_None_iff: "parseUrl url = None \<longleftrightarrow> \<not> spec_accepted url"
  using urlMatch_None_iff [of url] by (auto simp: parseUrl_def split: option.splits)

lemma toUpperCase_letter:
  "isLetter l \<Longrightarrow> isUpper (if isLower l then l - 0x20 else l)"
  by (auto simp: isLetter_def isUpper_def isLower_def) unat_arith+

lemma digit_not_lower: "isDigit d \<Longrightarrow> \<not> isLower d"
  by (auto simp: isDigit_def isLower_def) unat_arith

lemma referenceIndex_of_shape:
  assumes "spec_shapeHere lit1 lit2 t n"
  shows "spec_referenceIndex (toUpperCase (spec_index lit1 lit2 t n))"
proof -
  let ?u = "drop (length lit1 + n + length lit2) t"
  from assms have k: "length lit1 + n + length lit2 < length t"
    "isLetter (t ! (length lit1 + n + length lit2))"
    by (simp_all add: spec_shapeHere_def)
  from k(1) have "?u = t ! (length lit1 + n + length lit2) # drop (Suc (length lit1 + n + length lit2)) t"
    by (rule Cons_nth_drop_Suc [symmetric])
  with k(2) obtain l v where u: "?u = l # v" and l: "isLetter l"
    by blast
  show ?thesis
  proof (cases v)
    case Nil
    with u l toUpperCase_letter [OF l] show ?thesis
      by (simp add: spec_index_def spec_referenceIndex_def toUpperCase_def Let_def)
  next
    case (Cons d v')
    with u l toUpperCase_letter [OF l] digit_not_lower [of d] show ?thesis
      by (simp add: spec_index_def spec_referenceIndex_def toUpperCase_def Let_def)
  qed
qed

lemma parseInt_exact: "decimalValue ds < 2 ^ 53 \<Longrightarrow> parseInt ds = Num (int (decimalValue ds))"
  by (simp add: parseInt_def toDouble_def)


lemma reference_of_match:
  assumes "regexMatch (matchHere lit1 (0x2F # rest2)) url = Some (ds, ix)"
  shows "\<exists>i n. i < length url \<and> spec_shapeHere lit1 (0x2F # rest2) (drop i url) n
           \<and> (\<forall>j < i. \<forall>m. \<not> spec_shapeHere lit1 (0x2F # rest2) (drop j url) m)
           \<and> toUpperCase ix = toUpperCase (spec_index lit1 (0x2F # rest2) (drop i url) n)
           \<and> spec_referenceIndex (toUpperCase ix)
           \<and> parseInt ds = toDouble (decimalValue (spec_digits lit1 (drop i url) n))
           \<and> (decimalValue (spec_digits lit1 (drop i url) n) < 2 ^ 53 \<longrightarrow>
                parseInt ds = Num (int (decimalValue (spec_digits lit1 (drop i url) n))))"
proof -
  from regexMatch_matchHere_Some [OF assms] obtain i n where
    *: "i < length url" "spec_shapeHere lit1 (0x2F # rest2) (drop i url) n"
       "\<forall>j < i. \<forall>m. \<not> spec_shapeHere lit1 (0x2F # rest2) (drop j url) m"
       "ds = spec_digits lit1 (drop i url) n"
       "ix = spec_index lit1 (0x2F # rest2) (drop i url) n"
    by blast
  from referenceIndex_of_shape [OF *(2)] *(5) have "spec_referenceIndex (toUpperCase ix)"
    by simp
  moreover from *(4) have "parseInt ds = toDouble (decimalValue (spec_digits lit1 (drop i url) n))"
    by (simp add: parseInt_def)
  ultimately show ?thesis
    using * parseInt_exact [of ds] by blast
qed

text \<open>
  C4, as amended. For every URL in which one of the two shapes occurs, parsing yields a
  reference. It is read off the leftmost occurrence of the problem-set shape, wherever in
  the URL that lies, or, when that shape occurs nowhere in the URL, off the leftmost
  occurrence of the contest shape. Its index is the letter of that occurrence in upper
  case, followed by the digit behind the letter when there is one. Its contest id is the
  double nearest to the value of the numeric segment of that occurrence, and so equals
  that value exactly whenever the value is below \<open>2^53\<close>.
\<close>

theorem parsed_reference:
  assumes "spec_accepted url"
  shows "\<exists>ref lit1 lit2 i n.
           parseUrl url = Some ref
         \<and> (lit1 = js ''/problemset/problem/'' \<and> lit2 = js ''/''
            \<or> lit1 = js ''/contest/'' \<and> lit2 = js ''/problem/''
               \<and> \<not> spec_shapeOccurs (js ''/problemset/problem/'') (js ''/'') url)
         \<and> i < length url \<and> spec_shapeHere lit1 lit2 (drop i url) n
         \<and> (\<forall>j < i. \<forall>m. \<not> spec_shapeHere lit1 lit2 (drop j url) m)
         \<and> problemIndex ref = toUpperCase (spec_index lit1 lit2 (drop i url) n)
         \<and> spec_referenceIndex (problemIndex ref)
         \<and> contestId ref = toDouble (decimalValue (spec_digits lit1 (drop i url) n))
         \<and> (decimalValue (spec_digits lit1 (drop i url) n) < 2 ^ 53 \<longrightarrow>
              contestId ref = Num (int (decimalValue (spec_digits lit1 (drop i url) n))))"
proof (cases "regexMatch problemsetPattern url")
  case (Some r)
  obtain ds ix where r: "r = (ds, ix)" by (cases r)
  from Some r have p: "parseUrl url = Some \<lparr>contestId = parseInt ds, problemIndex = toUpperCase ix\<rparr>"
    by (simp add: parseUrl_def urlMatch_def)
  from Some r have "regexMatch (matchHere (js ''/problemset/problem/'') (0x2F # [])) url = Some (ds, ix)"
    by (simp add: problemsetPattern_def js_slash)
  from reference_of_match [OF this] p show ?thesis
    unfolding js_slash [symmetric] by (simp add: js_slash(1)) blast
next
  case None
  then have no: "\<not> spec_shapeOccurs (js ''/problemset/problem/'') (js ''/'') url"
    unfolding problemsetPattern_def js_slash by (simp add: regexMatch_matchHere_None_iff)
  from assms None obtain r where c: "regexMatch contestPattern url = Some r"
    using urlMatch_None_iff [of url] by (cases "regexMatch contestPattern url") (auto simp: urlMatch_def)
  obtain ds ix where r: "r = (ds, ix)" by (cases r)
  from None c r have p: "parseUrl url = Some \<lparr>contestId = parseInt ds, problemIndex = toUpperCase ix\<rparr>"
    by (simp add: parseUrl_def urlMatch_def)
  from c r have "regexMatch (matchHere (js ''/contest/'') (0x2F # js ''problem/'')) url = Some (ds, ix)"
    by (simp add: contestPattern_def js_slash)
  from reference_of_match [OF this] p no show ?thesis
    unfolding js_slash(2) [symmetric] by simp blast
qed

theorem parsed_reference_witness:
  "spec_accepted watermelonUrl
   \<and> parseUrl watermelonUrl = Some \<lparr>contestId = Num 4, problemIndex = js ''A''\<rparr>
   \<and> spec_referenceIndex (js ''A'')"
proof -
  have acc: "spec_accepted watermelonUrl"
    using parse_watermelonUrl parseUrl_None_iff [of watermelonUrl] by auto
  from parsed_reference [OF acc] obtain ref where
    "parseUrl watermelonUrl = Some ref" "spec_referenceIndex (problemIndex ref)"
    by blast
  with parse_watermelonUrl have "spec_referenceIndex (js ''A'')"
    by simp
  with acc parse_watermelonUrl show ?thesis
    by simp
qed

lemma bitlen_2_53_1: "bitlen 9007199254740993 = 54"
  by (simp add: bitlen.simps)

lemma parse_bothUrl:
  "parseUrl bothUrl = Some \<lparr>contestId = Num 5, problemIndex = js ''B''\<rparr>"
  by (simp add: bothUrl_def url_eval)

lemma urlPath_bothUrl:
  "spec_urlPath bothUrl = js ''/contest/4/problem/A?back=/problemset/problem/5/B''"
  by (simp add: spec_urlPath_def bothUrl_def js_def)

lemma contest_shape_bothUrl:
  "spec_shapeHere (js ''/contest/'') (js ''/problem/'') (spec_urlPath bothUrl) 1"
  unfolding urlPath_bothUrl
  by (simp add: spec_shapeHere_def ciEqual_def js_def canonicalize_def isLower_def isDigit_def
      isLetter_def isUpper_def)

lemma contest_digits_bothUrl:
  "spec_digits (js ''/contest/'') (spec_urlPath bothUrl) 1 = js ''4''"
  unfolding urlPath_bothUrl by (simp add: spec_digits_def js_def)

text \<open>
  Two URLs. In the first the numeric segment \<open>9007199254740993\<close> is \<open>2^53 + 1\<close>, which
  no double holds: the contest id parsed is \<open>9007199254740992\<close>. In the second the contest
  shape begins the path, with the numeric segment \<open>4\<close> and the letter \<open>A\<close>, and the query
  string holds a problem-set path: the reference parsed is contest \<open>5\<close>, index \<open>B\<close>.
\<close>

theorem parsed_reference_counterexample:
  "decimalValue (js ''9007199254740993'') = 9007199254740993
   \<and> parseUrl longIdUrl = Some \<lparr>contestId = Num 9007199254740992, problemIndex = js ''A''\<rparr>
   \<and> spec_shapeHere (js ''/contest/'') (js ''/problem/'') (spec_urlPath bothUrl) 1
   \<and> spec_digits (js ''/contest/'') (spec_urlPath bothUrl) 1 = js ''4''
   \<and> parseUrl bothUrl = Some \<lparr>contestId = Num 5, problemIndex = js ''B''\<rparr>"
proof -
  have "decimalValue (js ''9007199254740993'') = 9007199254740993"
    by (simp add: decimalValue_def digitValue_def js_def)
  moreover have
    "parseUrl longIdUrl = Some \<lparr>contestId = Num 9007199254740992, problemIndex = js ''A''\<rparr>"
    by (simp add: longIdUrl_def url_eval bitlen_2_53_1)
  ultimately show ?thesis
    using contest_shape_bothUrl contest_digits_bothUrl parse_bothUrl by blast
qed

text \<open>
  C5, as amended. For every URL in which neither shape occurs at any position, in
  whatever letter case, \<open>extractProblemData\<close> fails with the error of the invalid URL and
  leaves the world as it found it: no request to the API, no launch of a browser, no
  navigation.
\<close>

theorem unrecognised_url_fails_before_any_request:
  assumes "\<not> spec_accepted url"
  shows "extractProblemData env url w = (Inl InvalidUrlFormat, w)"
  using assms parseUrl_None_iff [of url] by (simp add: extractProblemData_def)

lemma parse_blogUrl: "parseUrl blogUrl = None"
  by (simp add: blogUrl_def url_eval)

theorem unrecognised_url_fails_before_any_request_witness:
  "\<not> spec_accepted blogUrl
   \<and> extractProblemData onlineApi blogUrl initialWorld = (Inl InvalidUrlFormat, initialWorld)
   \<and> trace initialWorld = []"
proof -
  have n: "\<not> spec_accepted blogUrl"
    using parse_blogUrl parseUrl_None_iff [of blogUrl] by simp
  from unrecognised_url_fails_before_any_request [OF n, of onlineApi initialWorld] n
  show ?thesis
    by (simp add: initialWorld_def)
qed

lemma parse_redirectUrl:
  "parseUrl redirectUrl = Some \<lparr>contestId = Num 4, problemIndex = js ''A''\<rparr>"
  by (simp add: redirectUrl_def url_eval)

lemma urlPath_redirectUrl:
  "spec_urlPath redirectUrl = js ''/blog/entry/1?back=/contest/4/problem/A''"
  by (simp add: spec_urlPath_def redirectUrl_def js_def)

lemma no_shape_begins_redirectUrl: "\<not> spec_shapeBeginsPath redirectUrl"
proof -
  have a: "\<not> ciEqual (take (length (js ''/problemset/problem/'')) (spec_urlPath redirectUrl))
             (js ''/problemset/problem/'')"
    unfolding urlPath_redirectUrl
    by (simp add: ciEqual_def js_def canonicalize_def isLower_def)
  have b: "\<not> ciEqual (take (length (js ''/contest/'')) (spec_urlPath redirectUrl))
             (js ''/contest/'')"
    unfolding urlPath_redirectUrl
    by (simp add: ciEqual_def js_def canonicalize_def isLower_def)
  show ?thesis
    using a b by (simp add: spec_shapeBeginsPath_def spec_shapeHere_def)
qed

lemma scrape_online_redirectUrl:
  "scrapeWithOptimizedPuppeteer onlineApi redirectUrl
     \<lparr>trace = [ApiRequest], requests = 1, launches = 0, openBrowsers = []\<rparr> =
   (Inr (extractFromPage emptyPage),
    \<lparr>trace = [ApiRequest, Launch 0, Goto 0 redirectUrl, Close 0],
     requests = 1, launches = 1, openBrowsers = []\<rparr>)"
  by (simp add: scrape_eval onlineApi_def)

text \<open>
  A URL whose path is that of a blog entry and whose query string holds a problem path:
  no shape begins its path, and the call does not fail: it asks the API and launches a
  browser.
\<close>

theorem unrecognised_url_fails_before_any_request_counterexample:
  "\<not> spec_shapeBeginsPath redirectUrl
   \<and> extractProblemData onlineApi redirectUrl initialWorld =
       (Inr (combine (Num 4) watermelon (extractFromPage emptyPage)),
        \<lparr>trace = [ApiRequest, Launch 0, Goto 0 redirectUrl, Close 0],
         requests = 1, launches = 1, openBrowsers = []\<rparr>)"
proof -
  have f: "fetchFromCodeforcesAPI onlineApi
             (contestId \<lparr>contestId = Num 4, problemIndex = js ''A''\<rparr>)
             (problemIndex \<lparr>contestId = Num 4, problemIndex = js ''A''\<rparr>) initialWorld =
           (Inr watermelon, \<lparr>trace = [ApiRequest], requests = 1, launches = 0, openBrowsers = []\<rparr>)"
    using fetch_online by simp
  from extract_both [OF parse_redirectUrl f scrape_online_redirectUrl] no_shape_begins_redirectUrl
  show ?thesis
    by simp
qed

text \<open>
  C7, as amended. A URL is accepted exactly when one of the two shapes occurs somewhere
  in it, at whatever position and in whatever letter case.
\<close>

theorem url_accepted_wherever_shape_occurs:
  "parseUrl url \<noteq> None \<longleftrightarrow> spec_accepted url"
  using parseUrl_None_iff [of url] by simp

theorem url_accepted_wherever_shape_occurs_witness:
  "parseUrl redirectUrl \<noteq> None \<and> spec_accepted redirectUrl"
  using url_accepted_wherever_shape_occurs [of redirectUrl] parse_redirectUrl by simp

text \<open>
  A URL whose path is that of a blog entry and whose query string holds a problem path:
  no shape begins its path, and it is accepted all the same.
\<close>

theorem url_accepted_wherever_shape_occurs_counterexample:
  "parseUrl redirectUrl = Some \<lparr>contestId = Num 4, problemIndex = js ''A''\<rparr>
   \<and> spec_urlPath redirectUrl = js ''/blog/entry/1?back=/contest/4/problem/A''
   \<and> \<not> spec_shapeBeginsPath redirectUrl"
  using parse_redirectUrl urlPath_redirectUrl no_shape_begins_redirectUrl by blast

section \<open>Pairing of the sample tests\<close>

lemma upt_min_Suc:
  "[0 ..< min (Suc a) (Suc b)] = 0 # map Suc [0 ..< min a b]"
  by (simp add: upt_conv_Cons map_Suc_upt del: upt_Suc)

lemma pairBlocks_spec: "pairBlocks inputs outputs = spec_pairs inputs outputs"
proof (induction inputs outputs rule: pairBlocks.induct)
  case (1 i inputs out outputs)
  have "spec_pairs (i # inputs) (out # outputs) =
          (if spec_acceptedPair i out
           then [\<lparr>tc_input = blockText i, tc_output = blockText out, tc_explanation = None\<rparr>]
           else []) @ spec_pairs inputs outputs"
    unfolding spec_pairs_def length_Cons upt_min_Suc
    by (simp add: filter_map comp_def)
  with 1 show ?case
    by (simp add: spec_acceptedPair_def Let_def)
qed (simp_all add: spec_pairs_def)

lemma pairBlocks_accepted:
  "t \<in> set (pairBlocks inputs outputs) \<Longrightarrow>
   tc_input t \<noteq> [] \<and> tc_output t \<noteq> [] \<and> length (tc_input t) < 200 \<and> length (tc_output t) < 200"
  by (induction inputs outputs rule: pairBlocks.induct) (auto simp: Let_def split: if_splits)

lemma outputLoop_result:
  "outputLoop doc [] inputs sels = []
   \<or> (\<exists>outputSel \<in> set sels.
        outputLoop doc [] inputs sels = pairBlocks inputs (querySelectorAll doc outputSel))"
  by (induction sels) (auto simp: Let_def)

lemma inputLoop_result:
  "inputLoop doc [] sels = []
   \<or> (\<exists>inputSel \<in> set sels. \<exists>outputSel \<in> set outputSelectors.
        inputLoop doc [] sels =
          pairBlocks (querySelectorAll doc inputSel) (querySelectorAll doc outputSel))"
proof (induction sels)
  case Nil
  then show ?case by simp
next
  case (Cons sel sels)
  from outputLoop_result [of doc "querySelectorAll doc sel" outputSelectors] Cons
  show ?case
    by (auto simp: Let_def)
qed

text \<open>
  C3. The sample tests of the scraped record are empty, or they are, for one input
  selector and one output selector, the pairs of the \<open>i\<close>-th input block with the \<open>i\<close>-th
  output block, for \<open>i\<close> below the smaller of the two counts, in ascending order of \<open>i\<close>,
  restricted to the pairs whose two trimmed texts are non-empty and under 200 code units;
  and no test of the record has an empty side or a side of 200 code units or more.
\<close>

theorem sample_tests_are_positional_pairs:
  "(sampleTests (extractFromPage doc) = []
    \<or> (\<exists>inputSel \<in> set inputSelectors. \<exists>outputSel \<in> set outputSelectors.
         sampleTests (extractFromPage doc) =
           spec_pairs (querySelectorAll doc inputSel) (querySelectorAll doc outputSel)))
   \<and> (\<forall>t \<in> set (sampleTests (extractFromPage doc)).
         tc_input t \<noteq> [] \<and> tc_output t \<noteq> []
         \<and> length (tc_input t) < 200 \<and> length (tc_output t) < 200)"
proof -
  have s: "sampleTests (extractFromPage doc) = inputLoop doc [] inputSelectors"
    by (simp add: extractFromPage_def extractSampleTests_def)
  from inputLoop_result [of doc inputSelectors]
  have a: "sampleTests (extractFromPage doc) = []
    \<or> (\<exists>inputSel \<in> set inputSelectors. \<exists>outputSel \<in> set outputSelectors.
         sampleTests (extractFromPage doc) =
           pairBlocks (querySelectorAll doc inputSel) (querySelectorAll doc outputSel))"
    unfolding s .
  then have b: "\<forall>t \<in> set (sampleTests (extractFromPage doc)).
         tc_input t \<noteq> [] \<and> tc_output t \<noteq> []
         \<and> length (tc_input t) < 200 \<and> length (tc_output t) < 200"
    using pairBlocks_accepted by (metis empty_iff list.set(1))
  from a b show ?thesis
    by (simp add: pairBlocks_spec)
qed


lemmas trim_eval = trim_def trimStart_def trimEnd_def isWhiteSpace_def

lemma sampleTests_watermelonPage:
  "sampleTests (extractFromPage watermelonPage) =
     [\<lparr>tc_input = js ''8'', tc_output = js ''YES'', tc_explanation = None\<rparr>,
      \<lparr>tc_input = js ''6'', tc_output = js ''YES'', tc_explanation = None\<rparr>]"
  by (simp add: extractFromPage_def extractSampleTests_def inputSelectors_def
      outputSelectors_def querySelectorAll_def watermelonPage_def block_def blockText_def
      trim_eval js_def Let_def)

theorem sample_tests_are_positional_pairs_witness:
  "sampleTests (extractFromPage watermelonPage) =
     [\<lparr>tc_input = js ''8'', tc_output = js ''YES'', tc_explanation = None\<rparr>,
      \<lparr>tc_input = js ''6'', tc_output = js ''YES'', tc_explanation = None\<rparr>]
   \<and> sampleTests (extractFromPage watermelonPage) =
       spec_pairs (querySelectorAll watermelonPage (js ''.input pre''))
         (querySelectorAll watermelonPage (js ''.output pre''))
   \<and> js ''8'' \<noteq> [] \<and> js ''YES'' \<noteq> [] \<and> length (js ''8'') < 200 \<and> length (js ''YES'') < 200"
proof -
  let ?t = "\<lparr>tc_input = js ''8'', tc_output = js ''YES'', tc_explanation = None\<rparr>"
  have "spec_pairs (querySelectorAll watermelonPage (js ''.input pre''))
          (querySelectorAll watermelonPage (js ''.output pre'')) =
        [?t, \<lparr>tc_input = js ''6'', tc_output = js ''YES'', tc_explanation = None\<rparr>]"
    by (simp add: spec_pairs_def spec_acceptedPair_def querySelectorAll_def watermelonPage_def
        block_def blockText_def trim_eval js_def upt_conv_Cons del: upt_Suc)
  with sampleTests_watermelonPage have p:
    "sampleTests (extractFromPage watermelonPage) =
       spec_pairs (querySelectorAll watermelonPage (js ''.input pre''))
         (querySelectorAll watermelonPage (js ''.output pre''))"
    by simp
  have "?t \<in> set (sampleTests (extractFromPage watermelonPage))"
    unfolding sampleTests_watermelonPage by simp
  with conjunct2 [OF sample_tests_are_positional_pairs [of watermelonPage]]
  have "tc_input ?t \<noteq> [] \<and> tc_output ?t \<noteq> []
        \<and> length (tc_input ?t) < 200 \<and> length (tc_output ?t) < 200"
    by (rule bspec)
  then have "js ''8'' \<noteq> [] \<and> js ''YES'' \<noteq> [] \<and> length (js ''8'') < 200 \<and> length (js ''YES'') < 200"
    by simp
  with sampleTests_watermelonPage p show ?thesis
    by blast
qed

section \<open>Input and output format\<close>

lemma matchItems_literal: "matchItems (literal lit) s = matchLiteral lit s"
proof (induction lit arbitrary: s)
  case Nil
  then show ?case by (simp add: literal_def)
next
  case (Cons p ps)
  then show ?case
    by (cases s) (simp_all add: literal_def)
qed

lemma find_map_index: "find P (map f xs) = map_option f (find (P \<circ> f) xs)"
  by (induction xs) simp_all

lemma find_upt_Suc:
  "find P [0 ..< Suc n] = (if P 0 then Some 0 else map_option Suc (find (P \<circ> Suc) [0 ..< n]))"
proof -
  have "[0 ..< Suc n] = 0 # map Suc [0 ..< n]"
    by (simp add: upt_conv_Cons map_Suc_upt del: upt_Suc)
  then show ?thesis
    by (simp add: find_map_index del: upt_Suc)
qed

lemma ciEqual_length: "ciEqual a b \<Longrightarrow> length a = length b"
  unfolding ciEqual_def by (rule map_eq_imp_length_eq)

lemma matchLiteral_at_head:
  "matchLiteral word s = (if ciEqual (take (length word) s) word then Some (drop (length word) s) else None)"
proof (cases "ciEqual (take (length word) s) word")
  case True
  from ciEqual_length [OF True] have "length word \<le> length s"
    by simp
  with True show ?thesis
    by (simp add: matchLiteral_Some_iff)
next
  case False
  then show ?thesis
    by (simp add: matchLiteral_None_iff)
qed

lemma replaceFirst_literal:
  assumes "word \<noteq> []"
  shows "replaceFirst (literal word) text = spec_cutFirst word text"
proof (induction "text")
  case Nil
  from assms have "\<not> ciEqual (take (length word) []) word"
    using ciEqual_length by fastforce
  then show ?case
    by (simp add: matchItems_literal matchLiteral_at_head spec_cutFirst_def)
next
  case (Cons c cs)
  show ?case
  proof (cases "ciEqual (take (length word) (c # cs)) word")
    case True
    then show ?thesis
      unfolding spec_cutFirst_def length_Cons find_upt_Suc
      by (simp add: matchItems_literal matchLiteral_at_head)
  next
    case False
    have "(\<lambda>i. ciEqual (take (length word) (drop i (c # cs))) word) \<circ> Suc =
          (\<lambda>i. ciEqual (take (length word) (drop i cs)) word)"
      by (simp add: fun_eq_iff)
    with False have "spec_cutFirst word (c # cs) = c # spec_cutFirst word cs"
      unfolding spec_cutFirst_def length_Cons find_upt_Suc
      by (simp split: option.splits)
    with False Cons show ?thesis
      by (simp add: matchItems_literal matchLiteral_at_head)
  qed
qed

lemma cutFirst_leading:
  "ciEqual (take (length word) text) word \<Longrightarrow>
   spec_cutFirst word text = spec_stripLeadingLabel word text"
proof (cases "text")
  case Nil
  then show ?thesis by (simp add: spec_cutFirst_def spec_stripLeadingLabel_def)
next
  case (Cons c cs)
  assume "ciEqual (take (length word) text) word"
  with Cons show ?thesis
    unfolding spec_cutFirst_def spec_stripLeadingLabel_def Cons length_Cons find_upt_Suc
    by simp
qed

lemma js_nonempty: "js ''input'' \<noteq> []" "js ''output'' \<noteq> []"
  by (simp_all add: js_def)

text \<open>
  C8, as amended. The input format is the located text with the first occurrence of the
  word \<open>input\<close> cut out, in any letter case and wherever in the text it lies, and then
  trimmed; the same holds of the output format and the word \<open>output\<close>. Where the located
  text begins with the word, what is cut is that leading label and no later occurrence.
\<close>

theorem format_label_cut:
  "extractInputFormat doc =
     trim (spec_cutFirst (js ''input'') (getTextBySelectors doc inputSpecSelectors))
   \<and> extractOutputFormat doc =
       trim (spec_cutFirst (js ''output'') (getTextBySelectors doc outputSpecSelectors))
   \<and> (ciEqual (take (length (js ''input'')) (getTextBySelectors doc inputSpecSelectors)) (js ''input'') \<longrightarrow>
        extractInputFormat doc =
          trim (spec_stripLeadingLabel (js ''input'') (getTextBySelectors doc inputSpecSelectors)))
   \<and> (ciEqual (take (length (js ''output'')) (getTextBySelectors doc outputSpecSelectors)) (js ''output'') \<longrightarrow>
        extractOutputFormat doc =
          trim (spec_stripLeadingLabel (js ''output'') (getTextBySelectors doc outputSpecSelectors)))"
  by (simp add: extractInputFormat_def extractOutputFormat_def replaceFirst_literal js_nonempty
      cutFirst_leading)


lemmas locate_eval =
  inputSpecSelectors_def querySelector_def block_def cleanText_def trim_eval js_def

lemma located_labelledPage:
  "getTextBySelectors labelledPage inputSpecSelectors = js ''Input The first input line holds n''"
  by (simp add: labelledPage_def locate_eval)

lemma located_unlabelledPage:
  "getTextBySelectors unlabelledPage inputSpecSelectors = js ''The first input line holds n''"
  by (simp add: unlabelledPage_def locate_eval)

theorem format_label_cut_witness:
  "ciEqual (take (length (js ''input'')) (getTextBySelectors labelledPage inputSpecSelectors))
     (js ''input'')
   \<and> getTextBySelectors labelledPage inputSpecSelectors = js ''Input The first input line holds n''
   \<and> extractInputFormat labelledPage = js ''The first input line holds n''"
proof (intro conjI)
  show c: "ciEqual (take (length (js ''input'')) (getTextBySelectors labelledPage inputSpecSelectors))
             (js ''input'')"
    unfolding located_labelledPage
    by (simp add: ciEqual_def js_def canonicalize_def isLower_def)
  show "getTextBySelectors labelledPage inputSpecSelectors = js ''Input The first input line holds n''"
    by (rule located_labelledPage)
  from format_label_cut [of labelledPage] c
  have "extractInputFormat labelledPage =
          trim (spec_stripLeadingLabel (js ''input'') (getTextBySelectors labelledPage inputSpecSelectors))"
    by blast
  also have "\<dots> = js ''The first input line holds n''"
    unfolding located_labelledPage
    by (simp add: spec_stripLeadingLabel_def ciEqual_def js_def canonicalize_def isLower_def trim_eval)
  finally show "extractInputFormat labelledPage = js ''The first input line holds n''" .
qed

text \<open>
  A located text without a leading label: the word inside the sentence is removed, where
  stripping a leading label would leave the text as it is.
\<close>

theorem format_label_cut_counterexample:
  "getTextBySelectors unlabelledPage inputSpecSelectors = js ''The first input line holds n''
   \<and> extractInputFormat unlabelledPage = js ''The first  line holds n''
   \<and> trim (spec_stripLeadingLabel (js ''input'') (js ''The first input line holds n''))
       = js ''The first input line holds n''"
proof (intro conjI)
  show "getTextBySelectors unlabelledPage inputSpecSelectors = js ''The first input line holds n''"
    by (rule located_unlabelledPage)
  show "extractInputFormat unlabelledPage = js ''The first  line holds n''"
    unfolding extractInputFormat_def located_unlabelledPage
    by (simp add: literal_def js_def canonicalize_def isLower_def trim_eval)
  show "trim (spec_stripLeadingLabel (js ''input'') (js ''The first input line holds n''))
       = js ''The first input line holds n''"
    by (simp add: spec_stripLeadingLabel_def ciEqual_def js_def canonicalize_def isLower_def trim_eval)
qed

end
